theory Spec2Isabelle
  imports Main
begin

section \<open>Data model\<close>

text \<open>
  The sync code of \<^verbatim>\<open>src/hooks/useSync.ts\<close> works on loosely typed objects
  (\<^verbatim>\<open>any[]\<close>) and reads a fixed set of properties from them. An object is
  modelled by the record \<open>item\<close>: one optional field per property the sync code
  reads, \<open>None\<close> standing for a property that is absent (\<^verbatim>\<open>undefined\<close>), and
  \<open>rest\<close> for all remaining properties (court, subject, amount, ...), which the
  code only copies.

  Identifiers are strings for every entity but \<^verbatim>\<open>SiteFinancialEntry\<close>, whose
  \<^verbatim>\<open>id\<close> is a number; a JavaScript \<^verbatim>\<open>Set\<close> or \<^verbatim>\<open>Map\<close> never identifies
  a number with a string, so both are kept apart in \<open>jsval\<close>.

  \<^verbatim>\<open>updated_at\<close> and a tombstone's \<^verbatim>\<open>deleted_at\<close> are modelled by the instant
  they denote, in milliseconds since the epoch (what \<^verbatim>\<open>new Date(x).getTime()\<close>
  returns for a valid date).
\<close>

datatype jsval = Str string | Num int

datatype docState = Synced | PendingUpload | PendingDownload | ErrorState | Downloading

record item =
  item_id :: "jsval option"
  item_name :: "string option"
  updated_at :: "int option"
  client_id :: "jsval option"
  case_id :: "jsval option"
  stage_id :: "jsval option"
  invoice_id :: "jsval option"
  clientId :: "jsval option"
  caseId :: "jsval option"
  localState :: "docState option"
  isLocalOnly :: "bool option"
  rest :: string

text \<open>The object \<^verbatim>\<open>{}\<close>: no property at all.\<close>

definition emptyItem :: item where
  "emptyItem = \<lparr>item_id = None, item_name = None, updated_at = None, client_id = None,
     case_id = None, stage_id = None, invoice_id = None, clientId = None, caseId = None,
     localState = None, isLocalOnly = None, rest = []\<rparr>"

text \<open>
  The nested graph of \<^verbatim>\<open>types.ts\<close>: an object with a child array is its own
  properties together with that array. A \<^verbatim>\<open>Session\<close> and an \<^verbatim>\<open>InvoiceItem\<close>
  have no children and are plain items.
\<close>

record Stage =
  stage_props :: item
  sessions :: "item list"

record Case =
  case_props :: item
  stages :: "Stage list"

record Client =
  client_props :: item
  cases :: "Case list"

record Invoice =
  invoice_props :: item
  items :: "item list"

record AppData =
  clients :: "Client list"
  adminTasks :: "item list"
  appointments :: "item list"
  accountingEntries :: "item list"
  invoices :: "Invoice list"
  assistants :: "string option list"
  documents :: "item list"
  profiles :: "item list"
  siteFinances :: "item list"

text \<open>
  \<^verbatim>\<open>FlatData\<close> of \<^verbatim>\<open>useOnlineData.ts\<close>, one array per table. Where the source
  takes a \<^verbatim>\<open>Partial<FlatData>\<close> it reads a missing table as \<^verbatim>\<open>[]\<close>
  (\<^verbatim>\<open>flatData.sessions || []\<close>), so a missing table is the empty list here.
\<close>

record FlatData =
  f_clients :: "item list"
  f_cases :: "item list"
  f_stages :: "item list"
  f_sessions :: "item list"
  f_admin_tasks :: "item list"
  f_appointments :: "item list"
  f_accounting_entries :: "item list"
  f_assistants :: "item list"
  f_invoices :: "item list"
  f_invoice_items :: "item list"
  f_case_documents :: "item list"
  f_profiles :: "item list"
  f_site_finances :: "item list"

section \<open>Flattener and reconstructor\<close>

text \<open>
  \<^verbatim>\<open>flattenData\<close>: the intermediate arrays \<^verbatim>\<open>cases\<close> and \<^verbatim>\<open>stages\<close> still
  carry their child arrays (\<^verbatim>\<open>{ ...cs, client_id: c.id }\<close>), which the returned
  tables strip (\<^verbatim>\<open>({ stages, ...caseItem }) => caseItem\<close>).
\<close>

definition flatCases :: "AppData \<Rightarrow> Case list" where
  "flatCases data = concat (map (\<lambda>c. map (\<lambda>cs.
       cs\<lparr>case_props := (case_props cs)\<lparr>client_id := item_id (client_props c)\<rparr>\<rparr>) (cases c))
     (clients data))"

definition flatStages :: "Case list \<Rightarrow> Stage list" where
  "flatStages css = concat (map (\<lambda>cs. map (\<lambda>st.
       st\<lparr>stage_props := (stage_props st)\<lparr>case_id := item_id (case_props cs)\<rparr>\<rparr>) (stages cs))
     css)"

definition flatSessions :: "Stage list \<Rightarrow> item list" where
  "flatSessions sts = concat (map (\<lambda>st. map (\<lambda>s.
       s\<lparr>stage_id := item_id (stage_props st)\<rparr>) (sessions st)) sts)"

definition flatInvoiceItems :: "AppData \<Rightarrow> item list" where
  "flatInvoiceItems data = concat (map (\<lambda>inv. map (\<lambda>it.
       it\<lparr>invoice_id := item_id (invoice_props inv)\<rparr>) (items inv)) (invoices data))"

definition flattenData :: "AppData \<Rightarrow> FlatData" where
  "flattenData data =
     (let cases' = flatCases data;
          stages' = flatStages cases';
          sessions' = flatSessions stages';
          invoice_items = flatInvoiceItems data
      in \<lparr>f_clients = map client_props (clients data),
          f_cases = map case_props cases',
          f_stages = map stage_props stages',
          f_sessions = sessions',
          f_admin_tasks = adminTasks data,
          f_appointments = appointments data,
          f_accounting_entries = accountingEntries data,
          f_assistants = map (\<lambda>name. emptyItem\<lparr>item_name := name\<rparr>) (assistants data),
          f_invoices = map invoice_props (invoices data),
          f_invoice_items = invoice_items,
          f_case_documents = documents data,
          f_profiles = profiles data,
          f_site_finances = siteFinances data\<rparr>)"

text \<open>
  \<^verbatim>\<open>constructData\<close> fills a \<^verbatim>\<open>Map\<close> from foreign key to child array with
  \<^verbatim>\<open>if (!m.has(k)) m.set(k, []); m.get(k).push(v)\<close> and reads it with
  \<^verbatim>\<open>m.get(k) || []\<close>. The foreign key read from a child may be \<^verbatim>\<open>undefined\<close>,
  which is a key like any other.
\<close>

definition pushTo :: "('k \<rightharpoonup> 'v list) \<Rightarrow> 'k \<Rightarrow> 'v \<Rightarrow> ('k \<rightharpoonup> 'v list)" where
  "pushTo m k v = m(k \<mapsto> (case m k of None \<Rightarrow> [] | Some vs \<Rightarrow> vs) @ [v])"

definition groupInto :: "('a \<Rightarrow> 'k) \<Rightarrow> ('a \<Rightarrow> 'v) \<Rightarrow> 'a list \<Rightarrow> ('k \<rightharpoonup> 'v list)" where
  "groupInto fk mk xs = foldl (\<lambda>m x. pushTo m (fk x) (mk x)) Map.empty xs"

definition getOrEmpty :: "('k \<rightharpoonup> 'v list) \<Rightarrow> 'k \<Rightarrow> 'v list" where
  "getOrEmpty m k = (case m k of None \<Rightarrow> [] | Some vs \<Rightarrow> vs)"

definition constructData :: "FlatData \<Rightarrow> AppData" where
  "constructData flatData =
     (let sessionMap = groupInto stage_id (\<lambda>s. s) (f_sessions flatData);
          stageMap = groupInto case_id
            (\<lambda>st. \<lparr>stage_props = st, sessions = getOrEmpty sessionMap (item_id st)\<rparr>)
            (f_stages flatData);
          caseMap = groupInto client_id
            (\<lambda>cs. \<lparr>case_props = cs, stages = getOrEmpty stageMap (item_id cs)\<rparr>)
            (f_cases flatData);
          invoiceItemMap = groupInto invoice_id (\<lambda>it. it) (f_invoice_items flatData)
      in \<lparr>clients = map (\<lambda>c. \<lparr>client_props = c, cases = getOrEmpty caseMap (item_id c)\<rparr>)
            (f_clients flatData),
          adminTasks = f_admin_tasks flatData,
          appointments = f_appointments flatData,
          accountingEntries = f_accounting_entries flatData,
          invoices = map (\<lambda>inv. \<lparr>invoice_props = inv,
            items = getOrEmpty invoiceItemMap (item_id inv)\<rparr>) (f_invoices flatData),
          assistants = map item_name (f_assistants flatData),
          documents = f_case_documents flatData,
          profiles = f_profiles flatData,
          siteFinances = f_site_finances flatData\<rparr>)"

section \<open>Deletion log applier\<close>

text \<open>
  A tombstone of the remote \<^verbatim>\<open>sync_deletions\<close> log (\<^verbatim>\<open>SyncDeletion\<close>); its row
  number and \<^verbatim>\<open>user_id\<close> are never read by the sync code and are left out.
  \<^verbatim>\<open>deleted_at\<close> is a non-empty timestamp string in the source (the column is
  filled by the database), so \<^verbatim>\<open>if (deletedAtStr)\<close> succeeds exactly when the
  lookup finds an entry.
\<close>

record SyncDeletion =
  table_name :: string
  record_id :: string
  deleted_at :: int

text \<open>\<^verbatim>\<open>item.id ?? item.name\<close>\<close>

definition keyOf :: "item \<Rightarrow> jsval option" where
  "keyOf i = (case item_id i of Some v \<Rightarrow> Some v | None \<Rightarrow> map_option Str (item_name i))"

text \<open>What a template string prints for an identifier.\<close>

function showNat :: "nat \<Rightarrow> string" where
  "showNat n = (if n < 10 then [''0123456789'' ! n]
                else showNat (n div 10) @ [''0123456789'' ! (n mod 10)])"
  by pat_completeness auto
termination
  by (relation "measure (\<lambda>n. n)") auto

definition showInt :: "int \<Rightarrow> string" where
  "showInt n = (if n < 0 then CHR ''-'' # showNat (nat (- n)) else showNat (nat n))"

fun templ :: "jsval option \<Rightarrow> string" where
  "templ None = ''undefined''"
| "templ (Some (Str s)) = s"
| "templ (Some (Num n)) = showInt n"

text \<open>\<^verbatim>\<open>`${tableName}:${id}`\<close>\<close>

definition deletionKey :: "string \<Rightarrow> string \<Rightarrow> string" where
  "deletionKey tableName ident = tableName @ '':'' @ ident"

definition deletionMap :: "SyncDeletion list \<Rightarrow> (string \<rightharpoonup> int)" where
  "deletionMap deletions =
     foldl (\<lambda>m d. m(deletionKey (table_name d) (record_id d) \<mapsto> deleted_at d)) Map.empty deletions"

text \<open>\<^verbatim>\<open>new Date(item.updated_at || 0).getTime()\<close>\<close>

definition dateOf :: "item \<Rightarrow> int" where
  "dateOf i = (case updated_at i of None \<Rightarrow> 0 | Some t \<Rightarrow> t)"

definition filterItems :: "(string \<rightharpoonup> int) \<Rightarrow> item list \<Rightarrow> string \<Rightarrow> item list" where
  "filterItems dm its tableName =
     filter (\<lambda>i. case dm (deletionKey tableName (templ (keyOf i))) of
                   Some deletedAt \<Rightarrow> if dateOf i < deletedAt + 2000 then False else True
                 | None \<Rightarrow> True) its"

text \<open>The callback mapped over \<^verbatim>\<open>case_documents\<close>; \<open>None\<close> is its \<^verbatim>\<open>null\<close>.\<close>

definition docAfterDeletion :: "(string \<rightharpoonup> int) \<Rightarrow> item \<Rightarrow> item option" where
  "docAfterDeletion dm doc =
     (case dm (deletionKey ''case_documents'' (templ (item_id doc))) of
        Some deletedAt \<Rightarrow>
          if dateOf doc < deletedAt + 2000 then
            (if localState doc = Some Synced \<or> isLocalOnly doc = Some True
             then Some (doc\<lparr>isLocalOnly := Some True\<rparr>)
             else None)
          else Some doc
      | None \<Rightarrow> Some doc)"

text \<open>JavaScript falsiness of an identifier: \<^verbatim>\<open>undefined\<close>, \<^verbatim>\<open>''\<close> and \<^verbatim>\<open>0\<close>.\<close>

fun falsy :: "jsval option \<Rightarrow> bool" where
  "falsy None = True"
| "falsy (Some (Str s)) = (s = [])"
| "falsy (Some (Num n)) = (n = 0)"

definition applyDeletionsToLocal :: "FlatData \<Rightarrow> SyncDeletion list \<Rightarrow> FlatData" where
  "applyDeletionsToLocal localFlatData deletions =
     (if deletions = [] then localFlatData else
      let dm = deletionMap deletions;
          filteredClients = filterItems dm (f_clients localFlatData) ''clients'';
          clientIds = set (map item_id filteredClients);
          filteredCases = filter (\<lambda>c. client_id c \<in> clientIds)
            (filterItems dm (f_cases localFlatData) ''cases'');
          caseIds = set (map item_id filteredCases);
          filteredStages = filter (\<lambda>s. case_id s \<in> caseIds)
            (filterItems dm (f_stages localFlatData) ''stages'');
          stageIds = set (map item_id filteredStages);
          filteredSessions = filter (\<lambda>s. stage_id s \<in> stageIds)
            (filterItems dm (f_sessions localFlatData) ''sessions'');
          filteredInvoices = filter (\<lambda>i. client_id i \<in> clientIds)
            (filterItems dm (f_invoices localFlatData) ''invoices'');
          invoiceIds = set (map item_id filteredInvoices);
          filteredInvoiceItems = filter (\<lambda>i. invoice_id i \<in> invoiceIds)
            (filterItems dm (f_invoice_items localFlatData) ''invoice_items'');
          filteredDocs = filter (\<lambda>d. caseId d \<in> caseIds)
            (List.map_filter (docAfterDeletion dm) (f_case_documents localFlatData));
          filteredEntries = filter (\<lambda>e. falsy (clientId e) \<or> clientId e \<in> clientIds)
            (filterItems dm (f_accounting_entries localFlatData) ''accounting_entries'')
      in localFlatData\<lparr>
           f_clients := filteredClients,
           f_cases := filteredCases,
           f_stages := filteredStages,
           f_sessions := filteredSessions,
           f_invoices := filteredInvoices,
           f_invoice_items := filteredInvoiceItems,
           f_case_documents := filteredDocs,
           f_accounting_entries := filteredEntries,
           f_admin_tasks := filterItems dm (f_admin_tasks localFlatData) ''admin_tasks'',
           f_appointments := filterItems dm (f_appointments localFlatData) ''appointments'',
           f_assistants := filterItems dm (f_assistants localFlatData) ''assistants'',
           f_site_finances := filterItems dm (f_site_finances localFlatData) ''site_finances'',
           f_profiles := f_profiles localFlatData\<rparr>)"

section \<open>Merge engine\<close>

text \<open>\<^verbatim>\<open>DeletedIds\<close> of \<^verbatim>\<open>types.ts\<close>: the pending local deletions.\<close>

record DeletedIds =
  d_clients :: "string list"
  d_cases :: "string list"
  d_stages :: "string list"
  d_sessions :: "string list"
  d_adminTasks :: "string list"
  d_appointments :: "string list"
  d_accountingEntries :: "string list"
  d_invoices :: "string list"
  d_invoiceItems :: "string list"
  d_assistants :: "string list"
  d_documents :: "string list"
  d_documentPaths :: "string list"
  d_profiles :: "string list"
  d_siteFinances :: "string list"

text \<open>
  \<^verbatim>\<open>new Set(deletedIds.clients).has(v)\<close>: the set holds strings, so neither
  \<^verbatim>\<open>undefined\<close> nor a number is ever a member.
\<close>

fun hasId :: "string list \<Rightarrow> jsval option \<Rightarrow> bool" where
  "hasId xs (Some (Str s)) = (s \<in> set xs)"
| "hasId xs _ = False"

text \<open>The keys of \<^verbatim>\<open>localFlatData\<close>, in the order \<^verbatim>\<open>Object.keys\<close> lists them.\<close>

datatype tableKey =
  K_clients | K_cases | K_stages | K_sessions | K_admin_tasks | K_appointments
  | K_accounting_entries | K_assistants | K_invoices | K_invoice_items
  | K_case_documents | K_profiles | K_site_finances

fun keyName :: "tableKey \<Rightarrow> string" where
  "keyName K_clients = ''clients''"
| "keyName K_cases = ''cases''"
| "keyName K_stages = ''stages''"
| "keyName K_sessions = ''sessions''"
| "keyName K_admin_tasks = ''admin_tasks''"
| "keyName K_appointments = ''appointments''"
| "keyName K_accounting_entries = ''accounting_entries''"
| "keyName K_assistants = ''assistants''"
| "keyName K_invoices = ''invoices''"
| "keyName K_invoice_items = ''invoice_items''"
| "keyName K_case_documents = ''case_documents''"
| "keyName K_profiles = ''profiles''"
| "keyName K_site_finances = ''site_finances''"

text \<open>\<^verbatim>\<open>(flatData as any)[key]\<close>\<close>

fun table :: "tableKey \<Rightarrow> FlatData \<Rightarrow> item list" where
  "table K_clients = f_clients"
| "table K_cases = f_cases"
| "table K_stages = f_stages"
| "table K_sessions = f_sessions"
| "table K_admin_tasks = f_admin_tasks"
| "table K_appointments = f_appointments"
| "table K_accounting_entries = f_accounting_entries"
| "table K_assistants = f_assistants"
| "table K_invoices = f_invoices"
| "table K_invoice_items = f_invoice_items"
| "table K_case_documents = f_case_documents"
| "table K_profiles = f_profiles"
| "table K_site_finances = f_site_finances"

text \<open>The object built by one assignment \<^verbatim>\<open>(flat as any)[key] = ...\<close> per key.\<close>

definition tabulate :: "(tableKey \<Rightarrow> item list) \<Rightarrow> FlatData" where
  "tabulate f = \<lparr>f_clients = f K_clients, f_cases = f K_cases, f_stages = f K_stages,
     f_sessions = f K_sessions, f_admin_tasks = f K_admin_tasks,
     f_appointments = f K_appointments, f_accounting_entries = f K_accounting_entries,
     f_assistants = f K_assistants, f_invoices = f K_invoices,
     f_invoice_items = f K_invoice_items, f_case_documents = f K_case_documents,
     f_profiles = f K_profiles, f_site_finances = f K_site_finances\<rparr>"

text \<open>The translation from a table key to the key of its deletion set.\<close>

definition entityKey :: "string \<Rightarrow> string" where
  "entityKey key =
     (if key = ''admin_tasks'' then ''adminTasks''
      else if key = ''accounting_entries'' then ''accountingEntries''
      else if key = ''invoice_items'' then ''invoiceItems''
      else if key = ''case_documents'' then ''documents''
      else if key = ''site_finances'' then ''siteFinances''
      else key)"

text \<open>\<^verbatim>\<open>(deletedIdsSets as any)[entityKey]\<close>; \<open>None\<close> when there is no such set.\<close>

definition deletedIdsSets :: "DeletedIds \<Rightarrow> string \<Rightarrow> string list option" where
  "deletedIdsSets d e =
     (if e = ''clients'' then Some (d_clients d)
      else if e = ''cases'' then Some (d_cases d)
      else if e = ''stages'' then Some (d_stages d)
      else if e = ''sessions'' then Some (d_sessions d)
      else if e = ''adminTasks'' then Some (d_adminTasks d)
      else if e = ''appointments'' then Some (d_appointments d)
      else if e = ''accountingEntries'' then Some (d_accountingEntries d)
      else if e = ''invoices'' then Some (d_invoices d)
      else if e = ''invoiceItems'' then Some (d_invoiceItems d)
      else if e = ''assistants'' then Some (d_assistants d)
      else if e = ''documents'' then Some (d_documents d)
      else if e = ''profiles'' then Some (d_profiles d)
      else if e = ''siteFinances'' then Some (d_siteFinances d)
      else None)"

text \<open>
  A JavaScript \<^verbatim>\<open>Map\<close> whose iteration order matters: an association list in
  insertion order, where \<^verbatim>\<open>set\<close> on a key already present replaces the value in
  place.
\<close>

fun mapSet :: "'k \<Rightarrow> 'v \<Rightarrow> ('k \<times> 'v) list \<Rightarrow> ('k \<times> 'v) list" where
  "mapSet k v [] = [(k, v)]"
| "mapSet k v (e # m) = (if fst e = k then (k, v) # m else e # mapSet k v m)"

definition newMap :: "('k \<times> 'v) list \<Rightarrow> ('k \<times> 'v) list" where
  "newMap entries = foldl (\<lambda>m e. mapSet (fst e) (snd e) m) [] entries"

definition mapHas :: "('k \<times> 'v) list \<Rightarrow> 'k \<Rightarrow> bool" where
  "mapHas m k = (map_of m k \<noteq> None)"

definition isParentDeleted :: "tableKey \<Rightarrow> DeletedIds \<Rightarrow> item \<Rightarrow> bool" where
  "isParentDeleted key d localItem =
     ((key = K_cases \<and> hasId (d_clients d) (client_id localItem))
      \<or> (key = K_stages \<and> hasId (d_cases d) (case_id localItem))
      \<or> (key = K_sessions \<and> hasId (d_stages d) (stage_id localItem))
      \<or> (key = K_invoice_items \<and> hasId (d_invoices d) (invoice_id localItem))
      \<or> (key = K_case_documents \<and> hasId (d_cases d) (caseId localItem)))"

text \<open>
  One round of the loop over \<^verbatim>\<open>localItems\<close>; the state is
  \<^verbatim>\<open>(finalMergedItems, itemsToUpsert)\<close>.
\<close>

definition localStep ::
  "tableKey \<Rightarrow> DeletedIds \<Rightarrow> (jsval option \<times> item) list
    \<Rightarrow> (jsval option \<times> item) list \<times> item list \<Rightarrow> item
    \<Rightarrow> (jsval option \<times> item) list \<times> item list" where
  "localStep key d remoteMap st localItem =
     (let ident = keyOf localItem; finalMergedItems = fst st; itemsToUpsert = snd st in
      if isParentDeleted key d localItem then st
      else case map_of remoteMap ident of
        Some remoteItem \<Rightarrow>
          if dateOf localItem > dateOf remoteItem
          then (mapSet ident localItem finalMergedItems, itemsToUpsert @ [localItem])
          else (mapSet ident remoteItem finalMergedItems, itemsToUpsert)
      | None \<Rightarrow>
          if key = K_case_documents \<and> localState localItem = Some Synced
             \<and> \<not> hasId (d_documents d) ident
          then (mapSet ident (localItem\<lparr>isLocalOnly := Some True\<rparr>) finalMergedItems,
                itemsToUpsert)
          else (mapSet ident localItem finalMergedItems, itemsToUpsert @ [localItem]))"

text \<open>One round of the loop over \<^verbatim>\<open>remoteItems\<close>.\<close>

definition remoteStep ::
  "tableKey \<Rightarrow> DeletedIds \<Rightarrow> (jsval option \<times> item) list
    \<Rightarrow> (jsval option \<times> item) list \<Rightarrow> item \<Rightarrow> (jsval option \<times> item) list" where
  "remoteStep key d localMap finalMergedItems remoteItem =
     (let ident = keyOf remoteItem in
      if \<not> mapHas localMap ident then
        (let isDeleted = (case deletedIdsSets d (entityKey (keyName key)) of
                            Some deletedSet \<Rightarrow> hasId deletedSet ident
                          | None \<Rightarrow> False)
         in if \<not> isDeleted then mapSet ident remoteItem finalMergedItems
            else finalMergedItems)
      else finalMergedItems)"

text \<open>
  The body of \<^verbatim>\<open>for (const key of Object.keys(localFlatData))\<close> for one table:
  the pair \<^verbatim>\<open>(itemsToUpsert, Array.from(finalMergedItems.values()))\<close>.
\<close>

definition mergeTable ::
  "tableKey \<Rightarrow> DeletedIds \<Rightarrow> item list \<Rightarrow> item list \<Rightarrow> item list \<times> item list" where
  "mergeTable key d localItems remoteItems =
     (let localMap = newMap (map (\<lambda>i. (keyOf i, i)) localItems);
          remoteMap = newMap (map (\<lambda>i. (keyOf i, i)) remoteItems);
          st = foldl (localStep key d remoteMap) ([], []) localItems;
          finalMergedItems = foldl (remoteStep key d localMap) (fst st) remoteItems
      in (snd st, map snd finalMergedItems))"

definition flatUpsertsOf :: "DeletedIds \<Rightarrow> FlatData \<Rightarrow> FlatData \<Rightarrow> FlatData" where
  "flatUpsertsOf d localFlatData remoteFlatData =
     tabulate (\<lambda>key. fst (mergeTable key d (table key localFlatData) (table key remoteFlatData)))"

definition mergedFlatDataOf :: "DeletedIds \<Rightarrow> FlatData \<Rightarrow> FlatData \<Rightarrow> FlatData" where
  "mergedFlatDataOf d localFlatData remoteFlatData =
     tabulate (\<lambda>key. snd (mergeTable key d (table key localFlatData) (table key remoteFlatData)))"

section \<open>Orphan safety net\<close>

text \<open>
  The filters applied to \<^verbatim>\<open>flatUpserts\<close> and \<^verbatim>\<open>mergedFlatData\<close> after the
  loop; the result is the pair of both, filtered.
\<close>

definition safetyNet :: "FlatData \<Rightarrow> FlatData \<Rightarrow> FlatData \<Rightarrow> FlatData \<times> FlatData" where
  "safetyNet remoteFlatData flatUpserts mergedFlatData =
     (let validClientIds = set (map item_id (f_clients remoteFlatData))
            \<union> set (map item_id (f_clients flatUpserts));
          upCases = filter (\<lambda>c. client_id c \<in> validClientIds) (f_cases flatUpserts);
          validCaseIds = set (map item_id (f_cases remoteFlatData)) \<union> set (map item_id upCases);
          upStages = filter (\<lambda>s. case_id s \<in> validCaseIds) (f_stages flatUpserts);
          validStageIds = set (map item_id (f_stages remoteFlatData))
            \<union> set (map item_id upStages);
          upSessions = filter (\<lambda>s. stage_id s \<in> validStageIds) (f_sessions flatUpserts)
      in (flatUpserts\<lparr>
            f_cases := upCases,
            f_stages := upStages,
            f_sessions := upSessions,
            f_case_documents :=
              filter (\<lambda>doc. caseId doc \<in> validCaseIds) (f_case_documents flatUpserts)\<rparr>,
          mergedFlatData\<lparr>
            f_cases := filter (\<lambda>c. client_id c \<in> validClientIds) (f_cases mergedFlatData),
            f_stages := filter (\<lambda>s. case_id s \<in> validCaseIds) (f_stages mergedFlatData),
            f_sessions := filter (\<lambda>s. stage_id s \<in> validStageIds) (f_sessions mergedFlatData),
            f_case_documents :=
              filter (\<lambda>doc. caseId doc \<in> validCaseIds) (f_case_documents mergedFlatData)\<rparr>))"

section \<open>Remote rows\<close>

text \<open>
  \<^verbatim>\<open>transformRemoteToLocal\<close> of \<^verbatim>\<open>useOnlineData.ts\<close> renames the columns of
  the fetched rows. Of the properties the sync code reads, it moves
  \<^verbatim>\<open>client_id\<close> and \<^verbatim>\<open>case_id\<close> to \<^verbatim>\<open>clientId\<close> and \<^verbatim>\<open>caseId\<close> for
  accounting entries, invoices and documents, and keeps only \<^verbatim>\<open>name\<close> of an
  assistant; the other renamings stay inside \<open>rest\<close>.
\<close>

definition camelKeys :: "item \<Rightarrow> item" where
  "camelKeys r = r\<lparr>client_id := None, case_id := None, clientId := client_id r, caseId := case_id r\<rparr>"

definition camelCaseKey :: "item \<Rightarrow> item" where
  "camelCaseKey r = r\<lparr>case_id := None, caseId := case_id r\<rparr>"

definition transformRemoteToLocal :: "FlatData \<Rightarrow> FlatData" where
  "transformRemoteToLocal remote =
     \<lparr>f_clients = f_clients remote,
      f_cases = f_cases remote,
      f_stages = f_stages remote,
      f_sessions = f_sessions remote,
      f_admin_tasks = f_admin_tasks remote,
      f_appointments = f_appointments remote,
      f_accounting_entries = map camelKeys (f_accounting_entries remote),
      f_assistants = map (\<lambda>a. emptyItem\<lparr>item_name := item_name a\<rparr>) (f_assistants remote),
      f_invoices = map camelKeys (f_invoices remote),
      f_invoice_items = f_invoice_items remote,
      f_case_documents = map camelCaseKey (f_case_documents remote),
      f_profiles = f_profiles remote,
      f_site_finances = f_site_finances remote\<rparr>"

text \<open>
  The part of \<^verbatim>\<open>upsertDataToSupabase\<close> that prepares \<^verbatim>\<open>case_documents\<close>:
  the filter, the mapping to database columns, and \<^verbatim>\<open>upsertTable\<close>, which sends
  no request for an empty array (\<open>None\<close>).
\<close>

definition documentsToUpsert :: "FlatData \<Rightarrow> item list" where
  "documentsToUpsert data = filter (\<lambda>doc. \<not> (isLocalOnly doc = Some True)) (f_case_documents data)"

definition documentRow :: "item \<Rightarrow> item" where
  "documentRow doc = doc\<lparr>caseId := None, localState := None, isLocalOnly := None,
     case_id := caseId doc\<rparr>"

definition upsertTable :: "item list \<Rightarrow> item list option" where
  "upsertTable records = (if records = [] then None else Some records)"

definition caseDocumentsUpsert :: "FlatData \<Rightarrow> item list option" where
  "caseDocumentsUpsert data = upsertTable (map documentRow (documentsToUpsert data))"

section \<open>Sync orchestrator\<close>

definition isLocalEffectivelyEmpty :: "FlatData \<Rightarrow> bool" where
  "isLocalEffectivelyEmpty localFlatData =
     (length (f_clients localFlatData) = 0 \<and> length (f_admin_tasks localFlatData) = 0
      \<and> length (f_appointments localFlatData) = 0
      \<and> length (f_accounting_entries localFlatData) = 0
      \<and> length (f_invoices localFlatData) = 0
      \<and> length (f_case_documents localFlatData) = 0)"

text \<open>\<^verbatim>\<open>Object.values\<close> of the two objects, as lists of their arrays.\<close>

definition deletedIdsValues :: "DeletedIds \<Rightarrow> string list list" where
  "deletedIdsValues d = [d_clients d, d_cases d, d_stages d, d_sessions d, d_adminTasks d,
     d_appointments d, d_accountingEntries d, d_invoices d, d_invoiceItems d, d_assistants d,
     d_documents d, d_documentPaths d, d_profiles d, d_siteFinances d]"

definition flatDataValues :: "FlatData \<Rightarrow> item list list" where
  "flatDataValues f = [f_clients f, f_cases f, f_stages f, f_sessions f, f_admin_tasks f,
     f_appointments f, f_accounting_entries f, f_assistants f, f_invoices f, f_invoice_items f,
     f_case_documents f, f_profiles f, f_site_finances f]"

definition hasPendingDeletions :: "DeletedIds \<Rightarrow> bool" where
  "hasPendingDeletions d = list_ex (\<lambda>arr. length arr > 0) (deletedIdsValues d)"

definition isRemoteEffectivelyEmpty :: "FlatData \<Rightarrow> bool" where
  "isRemoteEffectivelyEmpty remoteDataRaw =
     list_all (\<lambda>arr. length arr = 0) (flatDataValues remoteDataRaw)"

text \<open>\<^verbatim>\<open>flatDeletes\<close>: objects holding only the key; it has no \<^verbatim>\<open>profiles\<close>.\<close>

definition idOnly :: "string \<Rightarrow> item" where
  "idOnly i = emptyItem\<lparr>item_id := Some (Str i)\<rparr>"

definition flatDeletesOf :: "DeletedIds \<Rightarrow> FlatData" where
  "flatDeletesOf d =
     \<lparr>f_clients = map idOnly (d_clients d),
      f_cases = map idOnly (d_cases d),
      f_stages = map idOnly (d_stages d),
      f_sessions = map idOnly (d_sessions d),
      f_admin_tasks = map idOnly (d_adminTasks d),
      f_appointments = map idOnly (d_appointments d),
      f_accounting_entries = map idOnly (d_accountingEntries d),
      f_assistants = map (\<lambda>name. emptyItem\<lparr>item_name := Some name\<rparr>) (d_assistants d),
      f_invoices = map idOnly (d_invoices d),
      f_invoice_items = map idOnly (d_invoiceItems d),
      f_case_documents = map idOnly (d_documents d),
      f_profiles = [],
      f_site_finances = map idOnly (d_siteFinances d)\<rparr>"

text \<open>
  What \<^verbatim>\<open>manualSync\<close> decides once the remote snapshot and the deletion log are
  fetched: either the fast path, which hands \<^verbatim>\<open>constructData(remoteFlatData)\<close> to
  \<^verbatim>\<open>onDataSynced\<close> and returns, or the full round with the remote calls it makes
  in order: the storage removal (when there are document paths), the row
  deletion (when some array of \<^verbatim>\<open>flatDeletes\<close> is non-empty), and the upsert of
  \<^verbatim>\<open>flatUpserts\<close>; \<^verbatim>\<open>mergedFlatData\<close> is what the round keeps locally before the
  server's answer is written over it.
\<close>

datatype syncPlan =
  AdoptRemote AppData
  | MergeAndPush "string list option" "FlatData option" FlatData FlatData

definition manualSync ::
  "AppData \<Rightarrow> DeletedIds \<Rightarrow> FlatData \<Rightarrow> SyncDeletion list \<Rightarrow> syncPlan" where
  "manualSync localData deletedIds remoteDataRaw remoteDeletions =
     (let remoteFlatData = transformRemoteToLocal remoteDataRaw;
          localFlatData = applyDeletionsToLocal (flattenData localData) remoteDeletions
      in if isLocalEffectivelyEmpty localFlatData \<and> \<not> isRemoteEffectivelyEmpty remoteDataRaw
            \<and> \<not> hasPendingDeletions deletedIds
         then AdoptRemote (constructData remoteFlatData)
         else
           let out = safetyNet remoteFlatData
                 (flatUpsertsOf deletedIds localFlatData remoteFlatData)
                 (mergedFlatDataOf deletedIds localFlatData remoteFlatData);
               flatDeletes = flatDeletesOf deletedIds
           in MergeAndPush
                (if length (d_documentPaths deletedIds) > 0
                 then Some (d_documentPaths deletedIds) else None)
                (if list_ex (\<lambda>arr. length arr > 0) (flatDataValues flatDeletes)
                 then Some flatDeletes else None)
                (fst out) (snd out))"

fun upsertCall :: "syncPlan \<Rightarrow> FlatData option" where
  "upsertCall (AdoptRemote _) = None"
| "upsertCall (MergeAndPush _ _ flatUpserts _) = Some flatUpserts"

fun deleteCall :: "syncPlan \<Rightarrow> FlatData option" where
  "deleteCall (AdoptRemote _) = None"
| "deleteCall (MergeAndPush _ flatDeletes _ _) = flatDeletes"

fun storageRemoveCall :: "syncPlan \<Rightarrow> string list option" where
  "storageRemoveCall (AdoptRemote _) = None"
| "storageRemoveCall (MergeAndPush paths _ _ _) = paths"

section \<open>Notions of the specification\<close>

text \<open>
  A structurally valid graph: identifiers are not reused, so no two clients,
  no two cases, no two stages and no two invoices share one.
\<close>

definition allCases :: "AppData \<Rightarrow> Case list" where
  "allCases G = concat (map cases (clients G))"

definition allStages :: "AppData \<Rightarrow> Stage list" where
  "allStages G = concat (map stages (allCases G))"

definition validGraph :: "AppData \<Rightarrow> bool" where
  "validGraph G =
     (distinct (map (\<lambda>c. item_id (client_props c)) (clients G))
      \<and> distinct (map (\<lambda>cs. item_id (case_props cs)) (allCases G))
      \<and> distinct (map (\<lambda>st. item_id (stage_props st)) (allStages G))
      \<and> distinct (map (\<lambda>inv. item_id (invoice_props inv)) (invoices G)))"

text \<open>
  The graph in which every child carries its parent's identifier in the
  foreign-key property that \<^verbatim>\<open>flattenData\<close> adds.
\<close>

definition tagStage :: "jsval option \<Rightarrow> Stage \<Rightarrow> Stage" where
  "tagStage caseIdent st =
     \<lparr>stage_props = (stage_props st)\<lparr>case_id := caseIdent\<rparr>,
      sessions = map (\<lambda>s. s\<lparr>stage_id := item_id (stage_props st)\<rparr>) (sessions st)\<rparr>"

definition tagCase :: "jsval option \<Rightarrow> Case \<Rightarrow> Case" where
  "tagCase clientIdent cs =
     \<lparr>case_props = (case_props cs)\<lparr>client_id := clientIdent\<rparr>,
      stages = map (tagStage (item_id (case_props cs))) (stages cs)\<rparr>"

definition tagClient :: "Client \<Rightarrow> Client" where
  "tagClient c = c\<lparr>cases := map (tagCase (item_id (client_props c))) (cases c)\<rparr>"

definition tagInvoice :: "Invoice \<Rightarrow> Invoice" where
  "tagInvoice invoice =
     invoice\<lparr>items := map (\<lambda>it. it\<lparr>invoice_id := item_id (invoice_props invoice)\<rparr>)
       (items invoice)\<rparr>"

definition tagParents :: "AppData \<Rightarrow> AppData" where
  "tagParents G = G\<lparr>clients := map tagClient (clients G), invoices := map tagInvoice (invoices G)\<rparr>"

section \<open>Derived notions\<close>

text \<open>
  The table of pending deletions that belongs to each flat table (the
  translation table of the specification), against which the composition of
  \<open>entityKey\<close> and \<open>deletedIdsSets\<close> is checked below.
\<close>

fun pendingFor :: "tableKey \<Rightarrow> DeletedIds \<Rightarrow> string list" where
  "pendingFor K_clients = d_clients"
| "pendingFor K_cases = d_cases"
| "pendingFor K_stages = d_stages"
| "pendingFor K_sessions = d_sessions"
| "pendingFor K_admin_tasks = d_adminTasks"
| "pendingFor K_appointments = d_appointments"
| "pendingFor K_accounting_entries = d_accountingEntries"
| "pendingFor K_assistants = d_assistants"
| "pendingFor K_invoices = d_invoices"
| "pendingFor K_invoice_items = d_invoiceItems"
| "pendingFor K_case_documents = d_documents"
| "pendingFor K_profiles = d_profiles"
| "pendingFor K_site_finances = d_siteFinances"

text \<open>
  The two effects of one round of the local loop on a record that is not
  skipped: whether it is pushed onto \<^verbatim>\<open>itemsToUpsert\<close>, and which value is
  stored for its key in \<^verbatim>\<open>finalMergedItems\<close>.
\<close>

definition queued :: "tableKey \<Rightarrow> DeletedIds \<Rightarrow> (jsval option \<times> item) list \<Rightarrow> item \<Rightarrow> bool" where
  "queued key d remoteMap x =
     (\<not> isParentDeleted key d x \<and>
      (case map_of remoteMap (keyOf x) of
         Some r \<Rightarrow> dateOf x > dateOf r
       | None \<Rightarrow> \<not> (key = K_case_documents \<and> localState x = Some Synced
                      \<and> \<not> hasId (d_documents d) (keyOf x))))"

definition kept :: "tableKey \<Rightarrow> DeletedIds \<Rightarrow> (jsval option \<times> item) list \<Rightarrow> item \<Rightarrow> item" where
  "kept key d remoteMap x =
     (case map_of remoteMap (keyOf x) of
        Some r \<Rightarrow> if dateOf x > dateOf r then x else r
      | None \<Rightarrow> if key = K_case_documents \<and> localState x = Some Synced
                    \<and> \<not> hasId (d_documents d) (keyOf x)
                 then x\<lparr>isLocalOnly := Some True\<rparr> else x)"

text \<open>Every entry of a merged map is stored under its own key, and keys are unique.\<close>

definition wellKeyed :: "(jsval option \<times> item) list \<Rightarrow> bool" where
  "wellKeyed m = (distinct (map fst m) \<and> (\<forall>e \<in> set m. keyOf (snd e) = fst e))"

section \<open>Sample data\<close>

text \<open>\<^verbatim>\<open>getInitialDeletedIds\<close> of \<^verbatim>\<open>types.ts\<close>: nothing is pending.\<close>

definition getInitialDeletedIds :: DeletedIds where
  "getInitialDeletedIds = \<lparr>d_clients = [], d_cases = [], d_stages = [], d_sessions = [],
     d_adminTasks = [], d_appointments = [], d_accountingEntries = [], d_invoices = [],
     d_invoiceItems = [], d_assistants = [], d_documents = [], d_documentPaths = [],
     d_profiles = [], d_siteFinances = []\<rparr>"

definition emptyFlat :: FlatData where
  "emptyFlat = \<lparr>f_clients = [], f_cases = [], f_stages = [], f_sessions = [],
     f_admin_tasks = [], f_appointments = [], f_accounting_entries = [], f_assistants = [],
     f_invoices = [], f_invoice_items = [], f_case_documents = [], f_profiles = [],
     f_site_finances = []\<rparr>"

definition emptyData :: AppData where
  "emptyData = \<lparr>clients = [], adminTasks = [], appointments = [], accountingEntries = [],
     invoices = [], assistants = [], documents = [], profiles = [], siteFinances = []\<rparr>"

text \<open>A client \<^verbatim>\<open>c1\<close>, its case \<^verbatim>\<open>k1\<close> and its invoice \<^verbatim>\<open>i1\<close>.\<close>

definition client1 :: item where
  "client1 = emptyItem\<lparr>item_id := Some (Str ''c1''), item_name := Some ''Ali'',
     updated_at := Some 5\<rparr>"

definition case1 :: item where
  "case1 = emptyItem\<lparr>item_id := Some (Str ''k1''), updated_at := Some 5\<rparr>"

definition flatCase1 :: item where
  "flatCase1 = case1\<lparr>client_id := Some (Str ''c1'')\<rparr>"

definition flatCase1Newer :: item where
  "flatCase1Newer = flatCase1\<lparr>updated_at := Some 9\<rparr>"

definition invoice1 :: item where
  "invoice1 = emptyItem\<lparr>item_id := Some (Str ''i1''), clientId := Some (Str ''c1''),
     updated_at := Some 5\<rparr>"

definition freshGraph :: AppData where
  "freshGraph = emptyData\<lparr>
     clients := [\<lparr>client_props = client1, cases = [\<lparr>case_props = case1, stages = []\<rparr>]\<rparr>],
     invoices := [\<lparr>invoice_props = invoice1, items = []\<rparr>]\<rparr>"

definition taggedGraph :: AppData where
  "taggedGraph = emptyData\<lparr>
     clients := [\<lparr>client_props = client1, cases = [\<lparr>case_props = flatCase1, stages = []\<rparr>]\<rparr>],
     invoices := [\<lparr>invoice_props = invoice1, items = []\<rparr>]\<rparr>"

text \<open>A tombstone for a record that is not in the sample data.\<close>

definition unrelatedTombstone :: SyncDeletion where
  "unrelatedTombstone = \<lparr>table_name = ''admin_tasks'', record_id = ''t9'', deleted_at = 1000\<rparr>"

text \<open>A tombstone for the client \<^verbatim>\<open>c1\<close>, and the client edited at three instants.\<close>

definition clientTombstone :: SyncDeletion where
  "clientTombstone = \<lparr>table_name = ''clients'', record_id = ''c1'', deleted_at = 1000\<rparr>"

definition clientTombstoneAt :: "int \<Rightarrow> SyncDeletion" where
  "clientTombstoneAt t = \<lparr>table_name = ''clients'', record_id = ''c1'', deleted_at = t\<rparr>"

definition clientEditedAt :: "int \<Rightarrow> item" where
  "clientEditedAt t = client1\<lparr>updated_at := Some t\<rparr>"

text \<open>Documents of the case \<^verbatim>\<open>k1\<close> and a tombstone for the document \<^verbatim>\<open>d1\<close>.\<close>

definition syncedDoc :: item where
  "syncedDoc = emptyItem\<lparr>item_id := Some (Str ''d1''), caseId := Some (Str ''k1''),
     localState := Some Synced, updated_at := Some 5\<rparr>"

definition uploadingDocAt :: "int \<Rightarrow> item" where
  "uploadingDocAt t = emptyItem\<lparr>item_id := Some (Str ''d1''), caseId := Some (Str ''k1''),
     localState := Some PendingUpload, isLocalOnly := Some False, updated_at := Some t\<rparr>"

definition localOnlyDoc :: item where
  "localOnlyDoc = syncedDoc\<lparr>isLocalOnly := Some True\<rparr>"

definition docTombstone :: SyncDeletion where
  "docTombstone = \<lparr>table_name = ''case_documents'', record_id = ''d1'', deleted_at = 1000\<rparr>"

definition localWithDoc :: "item \<Rightarrow> FlatData" where
  "localWithDoc doc = emptyFlat\<lparr>f_clients := [client1], f_cases := [flatCase1],
     f_case_documents := [doc]\<rparr>"

text \<open>Pending deletions of the client \<^verbatim>\<open>c1\<close>, and of the case \<^verbatim>\<open>k1\<close>.\<close>

definition clientPending :: DeletedIds where
  "clientPending = getInitialDeletedIds\<lparr>d_clients := [''c1'']\<rparr>"

definition casePending :: DeletedIds where
  "casePending = getInitialDeletedIds\<lparr>d_cases := [''k1'']\<rparr>"

text \<open>An invoice item whose invoice exists nowhere.\<close>

definition orphanItem :: item where
  "orphanItem = emptyItem\<lparr>item_id := Some (Str ''it1''), invoice_id := Some (Str ''missing'')\<rparr>"

definition localWithOrphanItem :: FlatData where
  "localWithOrphanItem = emptyFlat\<lparr>f_invoice_items := [orphanItem]\<rparr>"

definition localClientAndCase :: FlatData where
  "localClientAndCase = emptyFlat\<lparr>f_clients := [client1], f_cases := [flatCase1]\<rparr>"

text \<open>A remote snapshot of three clients.\<close>

definition threeClients :: FlatData where
  "threeClients = emptyFlat\<lparr>f_clients := [client1,
     emptyItem\<lparr>item_id := Some (Str ''c2'')\<rparr>, emptyItem\<lparr>item_id := Some (Str ''c3'')\<rparr>]\<rparr>"

text \<open>
  A remote snapshot with a case whose client row is missing, and the graph with
  the client alone.
\<close>

definition orphanCase :: item where
  "orphanCase = emptyItem\<lparr>item_id := Some (Str ''k2''), client_id := Some (Str ''c9'')\<rparr>"

definition remoteWithOrphanCase :: FlatData where
  "remoteWithOrphanCase = emptyFlat\<lparr>f_clients := [client1], f_cases := [orphanCase]\<rparr>"

definition clientWithoutCases :: AppData where
  "clientWithoutCases = emptyData\<lparr>clients := [\<lparr>client_props = client1, cases = []\<rparr>]\<rparr>"

text \<open>Three remote clients, the first with one case, and the graph they form.\<close>

definition threeClientsOneCase :: FlatData where
  "threeClientsOneCase = threeClients\<lparr>f_cases := [flatCase1]\<rparr>"

definition threeClientsGraph :: AppData where
  "threeClientsGraph = emptyData\<lparr>clients :=
     [\<lparr>client_props = client1, cases = [\<lparr>case_props = flatCase1, stages = []\<rparr>]\<rparr>,
      \<lparr>client_props = emptyItem\<lparr>item_id := Some (Str ''c2'')\<rparr>, cases = []\<rparr>,
      \<lparr>client_props = emptyItem\<lparr>item_id := Some (Str ''c3'')\<rparr>, cases = []\<rparr>]\<rparr>"

section \<open>Lemmas\<close>

subsection \<open>Tombstone lookup\<close>

lemma deletionMap_Nil: "deletionMap [] = Map.empty"
  by (simp add: deletionMap_def)

lemma deletionMap_snoc:
  "deletionMap (ds @ [d]) = (deletionMap ds)(deletionKey (table_name d) (record_id d) \<mapsto> deleted_at d)"
  by (simp add: deletionMap_def)


subsection \<open>Documents and the safety net\<close>






lemma docs_after:
  "deletions \<noteq> [] \<Longrightarrow> f_case_documents (applyDeletionsToLocal L deletions) =
     filter (\<lambda>d. caseId d \<in> set (map item_id (f_cases (applyDeletionsToLocal L deletions))))
       (List.map_filter (docAfterDeletion (deletionMap deletions)) (f_case_documents L))"
  by (simp add: applyDeletionsToLocal_def Let_def)

lemma set_map_filter: "set (List.map_filter f xs) = {y. \<exists>x \<in> set xs. f x = Some y}"
  by (induction xs) (auto split: option.splits)

lemma docAfterDeletion_id: "docAfterDeletion dm d = Some x \<Longrightarrow> item_id x = item_id d \<and> caseId x = caseId d"
  by (auto simp: docAfterDeletion_def split: option.splits if_splits)

lemma docAfterDeletion_cases:
  "docAfterDeletion dm x = Some y \<Longrightarrow> y = x \<or> isLocalOnly y = Some True"
  by (auto simp: docAfterDeletion_def split: option.splits if_splits)


subsection \<open>Association-list maps\<close>

lemma map_of_mapSet: "map_of (mapSet k v m) = (map_of m)(k \<mapsto> v)"
  by (induction m) (auto simp: fun_eq_iff)

lemma set_mapSet_subset: "e \<in> set (mapSet k v m) \<Longrightarrow> e = (k, v) \<or> e \<in> set m"
  by (induction m) (auto split: if_splits)

lemma keys_mapSet:
  "map fst (mapSet k v m) = (if k \<in> set (map fst m) then map fst m else map fst m @ [k])"
  by (induction m) auto

lemma distinct_mapSet: "distinct (map fst m) \<Longrightarrow> distinct (map fst (mapSet k v m))"
  by (simp add: keys_mapSet)

lemma map_of_foldl_mapSet:
  "map_of (foldl (\<lambda>m e. mapSet (fst e) (snd e) m) m0 es) = map_of m0 ++ map_of (rev es)"
proof (induction es arbitrary: m0)
  case Nil
  then show ?case by simp
next
  case (Cons e es)
  have "map_of (mapSet (fst e) (snd e) m0) ++ map_of (rev es)
          = map_of m0 ++ (map_of (rev es @ [e]))"
    by (cases e) (simp add: map_of_mapSet map_add_upd_left fun_eq_iff map_add_def split: option.splits)
  with Cons show ?case by simp
qed

lemma map_of_newMap: "map_of (newMap es) = map_of (rev es)"
  by (simp add: newMap_def map_of_foldl_mapSet)

lemma newMap_SomeD: "map_of (newMap es) k = Some v \<Longrightarrow> (k, v) \<in> set es"
  by (auto simp: map_of_newMap dest: map_of_SomeD)

lemma newMap_distinct:
  "distinct (map fst es) \<Longrightarrow> (k, v) \<in> set es \<Longrightarrow> map_of (newMap es) k = Some v"
  by (simp add: map_of_newMap rev_map [symmetric])

lemma mapHas_newMap: "mapHas (newMap es) k \<longleftrightarrow> k \<in> fst ` set es"
proof -
  have "dom (map_of (newMap es)) = fst ` set es"
    by (simp add: map_of_newMap dom_map_of_conv_image_fst)
  then show ?thesis by (auto simp: mapHas_def)
qed

subsection \<open>The loop over the local items\<close>

lemma localStep_eq:
  "localStep key d rm st x =
     (if isParentDeleted key d x then st
      else (mapSet (keyOf x) (kept key d rm x) (fst st),
            if queued key d rm x then snd st @ [x] else snd st))"
  by (cases st) (auto simp: localStep_def kept_def queued_def Let_def split: option.splits)

lemma upserts_foldl:
  "snd (foldl (localStep key d rm) st xs) = snd st @ filter (queued key d rm) xs"
proof (induction xs arbitrary: st)
  case Nil
  then show ?case by simp
next
  case (Cons x xs)
  have q: "queued key d rm x \<Longrightarrow> \<not> isParentDeleted key d x" by (simp add: queued_def)
  have "snd (foldl (localStep key d rm) st (x # xs))
          = snd (localStep key d rm st x) @ filter (queued key d rm) xs"
    by (simp only: foldl_Cons Cons)
  also have "snd (localStep key d rm st x) = snd st @ filter (queued key d rm) [x]"
    using q by (simp add: localStep_eq)
  finally show ?case by simp
qed

lemma local_other_key:
  "\<forall>x \<in> set xs. keyOf x \<noteq> k \<Longrightarrow>
     map_of (fst (foldl (localStep key d rm) st xs)) k = map_of (fst st) k"
proof (induction xs arbitrary: st)
  case Nil
  then show ?case by simp
next
  case (Cons x xs)
  then have "map_of (fst (foldl (localStep key d rm) st (x # xs))) k
               = map_of (fst (localStep key d rm st x)) k"
    by (simp only: foldl_Cons) simp
  also have "\<dots> = map_of (fst st) k"
    using Cons.prems by (auto simp: localStep_eq map_of_mapSet)
  finally show ?case .
qed

lemma local_entry:
  assumes "a \<in> set xs" "distinct (map keyOf xs)" "\<not> isParentDeleted key d a"
  shows "map_of (fst (foldl (localStep key d rm) st xs)) (keyOf a) = Some (kept key d rm a)"
proof -
  from assms(1) obtain ys zs where xs: "xs = ys @ a # zs" by (auto dest: split_list)
  with assms(2) have "keyOf a \<notin> keyOf ` set zs" by simp
  then have "\<forall>x \<in> set zs. keyOf x \<noteq> keyOf a" by (metis imageI)
  then show ?thesis
    using assms(3) by (simp add: xs local_other_key localStep_eq map_of_mapSet)
qed

subsection \<open>The loop over the remote items\<close>

lemma remote_local_key:
  "mapHas lm k \<Longrightarrow> map_of (foldl (remoteStep key d lm) fm rs) k = map_of fm k"
  by (induction rs arbitrary: fm) (auto simp: remoteStep_def Let_def map_of_mapSet)

lemma wellKeyed_mapSet: "wellKeyed m \<Longrightarrow> keyOf v = k \<Longrightarrow> wellKeyed (mapSet k v m)"
  unfolding wellKeyed_def using set_mapSet_subset [of _ k v m] distinct_mapSet [of m k v]
  by fastforce

lemma keyOf_localOnly: "keyOf (x\<lparr>isLocalOnly := b\<rparr>) = keyOf x"
  by (simp add: keyOf_def split: option.splits)

lemma keyOf_kept:
  "keyOf (kept key d (newMap (map (\<lambda>i. (keyOf i, i)) rs)) x) = keyOf x"
  by (auto simp: kept_def keyOf_localOnly split: option.splits dest!: newMap_SomeD)

lemma wellKeyed_local:
  "wellKeyed (fst st) \<Longrightarrow>
     wellKeyed (fst (foldl (localStep key d (newMap (map (\<lambda>i. (keyOf i, i)) rs))) st xs))"
  by (induction xs arbitrary: st) (simp_all add: localStep_eq wellKeyed_mapSet keyOf_kept)

lemma wellKeyed_remote:
  "wellKeyed fm \<Longrightarrow> wellKeyed (foldl (remoteStep key d lm) fm rs)"
  by (induction rs arbitrary: fm) (simp_all add: remoteStep_def Let_def wellKeyed_mapSet)

lemma wellKeyed_values:
  "wellKeyed m \<Longrightarrow> map_of m k = Some v \<Longrightarrow> filter (\<lambda>x. keyOf x = k) (map snd m) = [v]"
proof (induction m)
  case Nil
  then show ?case by simp
next
  case (Cons e m)
  from Cons.prems(1) have wk: "wellKeyed m" and e: "keyOf (snd e) = fst e"
    and fresh: "fst e \<notin> fst ` set m" by (auto simp: wellKeyed_def)
  show ?case
  proof (cases "fst e = k")
    case True
    with Cons.prems(2) have v: "snd e = v" by (cases e) simp
    have "keyOf (snd e') \<noteq> k" if "e' \<in> set m" for e'
    proof -
      from that wk have "keyOf (snd e') = fst e'" by (simp add: wellKeyed_def)
      moreover from that have "fst e' \<in> fst ` set m" by (rule imageI)
      ultimately show ?thesis using fresh True by metis
    qed
    then have "filter (\<lambda>x. keyOf x = k) (map snd m) = []"
      by (auto simp: filter_empty_conv)
    with True e v show ?thesis by simp
  next
    case False
    with Cons.prems(2) have "map_of m k = Some v" by (cases e) simp
    with Cons.IH wk False e show ?thesis by simp
  qed
qed

lemma mergeTable_entry:
  assumes "a \<in> set ls" "distinct (map keyOf ls)" "\<not> isParentDeleted key d a"
  shows "filter (\<lambda>x. keyOf x = keyOf a) (snd (mergeTable key d ls rs))
           = [kept key d (newMap (map (\<lambda>i. (keyOf i, i)) rs)) a]"
proof -
  let ?rm = "newMap (map (\<lambda>i. (keyOf i, i)) rs)"
  let ?lm = "newMap (map (\<lambda>i. (keyOf i, i)) ls)"
  let ?st = "foldl (localStep key d ?rm) ([], []) ls"
  let ?fm = "foldl (remoteStep key d ?lm) (fst ?st) rs"
  have has: "mapHas ?lm (keyOf a)" using assms(1) by (force simp: mapHas_newMap)
  have "map_of ?fm (keyOf a) = Some (kept key d ?rm a)"
    using remote_local_key [OF has] local_entry [OF assms] by simp
  moreover have "wellKeyed ?fm"
    by (intro wellKeyed_remote wellKeyed_local) (simp add: wellKeyed_def)
  ultimately show ?thesis
    by (simp add: mergeTable_def Let_def wellKeyed_values)
qed

lemma mergeTable_upserts:
  "fst (mergeTable key d ls rs) = filter (queued key d (newMap (map (\<lambda>i. (keyOf i, i)) rs))) ls"
  by (simp add: mergeTable_def Let_def upserts_foldl)

subsection \<open>Deletion sets\<close>

lemma deletedSet_translation:
  "deletedIdsSets d (entityKey (keyName key)) = Some (pendingFor key d)"
  by (cases key) (simp_all add: deletedIdsSets_def entityKey_def)


lemma remoteStep_eq:
  "remoteStep key d lm fm r =
     (if \<not> mapHas lm (keyOf r) \<and> \<not> hasId (pendingFor key d) (keyOf r)
      then mapSet (keyOf r) r fm else fm)"
  by (auto simp: remoteStep_def Let_def deletedSet_translation)


lemma local_keys:
  "\<forall>e \<in> set (fst st). Q (fst e) \<Longrightarrow> \<forall>x \<in> set xs. Q (keyOf x) \<Longrightarrow>
     \<forall>e \<in> set (fst (foldl (localStep key d rm) st xs)). Q (fst e)"
proof (induction xs arbitrary: st)
  case Nil
  then show ?case by simp
next
  case (Cons x xs)
  have "Q (fst e)" if "e \<in> set (fst (localStep key d rm st x))" for e
  proof (cases "isParentDeleted key d x")
    case True
    with that Cons.prems(1) show ?thesis by (simp add: localStep_eq)
  next
    case False
    with that have "e \<in> set (mapSet (keyOf x) (kept key d rm x) (fst st))"
      by (simp add: localStep_eq)
    then have "e = (keyOf x, kept key d rm x) \<or> e \<in> set (fst st)"
      by (rule set_mapSet_subset)
    then show ?thesis
    proof
      assume "e = (keyOf x, kept key d rm x)"
      then have "fst e = keyOf x" by simp
      with Cons.prems(2) show ?thesis by simp
    next
      assume "e \<in> set (fst st)"
      with Cons.prems(1) show ?thesis by blast
    qed
  qed
  then have "\<forall>e \<in> set (fst (localStep key d rm st x)). Q (fst e)" by blast
  with Cons.IH [of "localStep key d rm st x"] Cons.prems(2) show ?case by simp
qed

lemma remote_keys:
  "\<forall>e \<in> set fm. fst e \<in> A \<or> \<not> hasId (pendingFor key d) (fst e) \<Longrightarrow>
     \<forall>e \<in> set (foldl (remoteStep key d lm) fm rs). fst e \<in> A \<or> \<not> hasId (pendingFor key d) (fst e)"
proof (induction rs arbitrary: fm)
  case Nil
  then show ?case by simp
next
  case (Cons r rs)
  have "fst e \<in> A \<or> \<not> hasId (pendingFor key d) (fst e)"
    if "e \<in> set (remoteStep key d lm fm r)" for e
  proof (cases "\<not> mapHas lm (keyOf r) \<and> \<not> hasId (pendingFor key d) (keyOf r)")
    case True
    with that have "e \<in> set (mapSet (keyOf r) r fm)"
      by (simp add: remoteStep_eq)
    then have "e = (keyOf r, r) \<or> e \<in> set fm" by (rule set_mapSet_subset)
    then show ?thesis
    proof
      assume "e = (keyOf r, r)"
      then have "fst e = keyOf r" by simp
      with True show ?thesis by simp
    next
      assume "e \<in> set fm"
      with Cons.prems show ?thesis by blast
    qed
  next
    case False
    with that have "e \<in> set fm"
      by (auto simp: remoteStep_eq)
    with Cons.prems show ?thesis by blast
  qed
  then have "\<forall>e \<in> set (remoteStep key d lm fm r).
      fst e \<in> A \<or> \<not> hasId (pendingFor key d) (fst e)" by blast
  with Cons.IH [of "remoteStep key d lm fm r"] show ?case by simp
qed


subsection \<open>Grouping children under their parents\<close>

lemma getOrEmpty_foldl:
  "getOrEmpty (foldl (\<lambda>m x. pushTo m (fk x) (mk x)) m xs) k
     = getOrEmpty m k @ map mk (filter (\<lambda>x. fk x = k) xs)"
proof (induction xs arbitrary: m)
  case Nil
  then show ?case by simp
next
  case (Cons x xs)
  have "getOrEmpty (pushTo m (fk x) (mk x)) k
          = getOrEmpty m k @ map mk (filter (\<lambda>x. fk x = k) [x])"
    by (simp add: getOrEmpty_def pushTo_def)
  with Cons [of "pushTo m (fk x) (mk x)"] show ?case by simp
qed

lemma getOrEmpty_groupInto:
  "getOrEmpty (groupInto fk mk xs) k = map mk (filter (\<lambda>x. fk x = k) xs)"
  by (simp add: groupInto_def getOrEmpty_foldl) (simp add: getOrEmpty_def)

lemma regroup:
  assumes "distinct (map pid ps)" and "p \<in> set ps" and "\<And>q c. fk (tag q c) = pid q"
  shows "filter (\<lambda>c. fk c = pid p) (concat (map (\<lambda>q. map (tag q) (ch q)) ps)) = map (tag p) (ch p)"
  using assms(1,2)
proof (induction ps)
  case Nil
  then show ?case by simp
next
  case (Cons q ps)
  have other: "filter (\<lambda>c. fk c = pid p) (map (tag r) (ch r)) = []" if "pid r \<noteq> pid p" for r
    using that by (simp add: filter_empty_conv assms(3))
  have same: "filter (\<lambda>c. fk c = pid p) (map (tag r) (ch r)) = map (tag r) (ch r)" if "pid r = pid p" for r
    using that by (simp add: assms(3))
  show ?case
  proof (cases "q = p")
    case True
    from Cons.prems(1) True have "\<forall>r \<in> set ps. pid r \<noteq> pid p" by (metis distinct.simps(2) imageI list.simps(9) set_map)
    then have "filter (\<lambda>c. fk c = pid p) (concat (map (\<lambda>q. map (tag q) (ch q)) ps)) = []"
      by (induction ps) (simp_all add: other)
    with True show ?thesis by (simp add: same)
  next
    case False
    with Cons.prems have p: "p \<in> set ps" and d: "distinct (map pid ps)" by auto
    from p Cons.prems(1) have "pid q \<noteq> pid p" by (metis distinct.simps(2) imageI list.simps(9) set_map)
    with Cons.IH [OF d p] show ?thesis by (simp add: other)
  qed
qed

lemma flatCases_ids:
  "map (\<lambda>cs. item_id (case_props cs)) (flatCases G) = map (\<lambda>cs. item_id (case_props cs)) (allCases G)"
  by (simp add: flatCases_def allCases_def map_concat comp_def)

lemma flatCases_stages: "concat (map stages (flatCases G)) = allStages G"
  by (simp add: flatCases_def allStages_def allCases_def map_concat comp_def)

lemma flatStages_ids:
  "map (\<lambda>st. item_id (stage_props st)) (flatStages css)
     = map (\<lambda>st. item_id (stage_props st)) (concat (map stages css))"
  by (simp add: flatStages_def map_concat comp_def)

lemma sessions_of_stage:
  assumes "distinct (map (\<lambda>st. item_id (stage_props st)) sts)" and "st \<in> set sts"
  shows "getOrEmpty (groupInto stage_id (\<lambda>s. s) (flatSessions sts)) (item_id (stage_props st))
           = map (\<lambda>s. s\<lparr>stage_id := item_id (stage_props st)\<rparr>) (sessions st)"
  using regroup [where pid = "\<lambda>st. item_id (stage_props st)" and fk = stage_id
      and tag = "\<lambda>st s. s\<lparr>stage_id := item_id (stage_props st)\<rparr>" and ch = sessions, OF assms]
  by (simp add: getOrEmpty_groupInto flatSessions_def)

lemma items_of_invoice:
  assumes "distinct (map (\<lambda>i. item_id (invoice_props i)) (invoices G))" and "i \<in> set (invoices G)"
  shows "getOrEmpty (groupInto invoice_id (\<lambda>s. s) (flatInvoiceItems G)) (item_id (invoice_props i))
           = map (\<lambda>s. s\<lparr>invoice_id := item_id (invoice_props i)\<rparr>) (items i)"
  using regroup [where pid = "\<lambda>i. item_id (invoice_props i)" and fk = invoice_id
      and tag = "\<lambda>i s. s\<lparr>invoice_id := item_id (invoice_props i)\<rparr>" and ch = items, OF assms]
  by (simp add: getOrEmpty_groupInto flatInvoiceItems_def)

lemma stages_of_case:
  assumes dc: "distinct (map (\<lambda>cs. item_id (case_props cs)) css)"
    and ds: "distinct (map (\<lambda>st. item_id (stage_props st)) (concat (map stages css)))"
    and mem: "cs \<in> set css"
  shows "getOrEmpty (groupInto case_id
            (\<lambda>st. \<lparr>stage_props = st,
               sessions = getOrEmpty (groupInto stage_id (\<lambda>s. s) (flatSessions (flatStages css))) (item_id st)\<rparr>)
            (map stage_props (flatStages css))) (item_id (case_props cs))
           = map (tagStage (item_id (case_props cs))) (stages cs)"
proof -
  let ?tag = "\<lambda>cs st. st\<lparr>stage_props := (stage_props st)\<lparr>case_id := item_id (case_props cs)\<rparr>\<rparr>"
  let ?mk = "\<lambda>st. \<lparr>stage_props = st,
               sessions = getOrEmpty (groupInto stage_id (\<lambda>s. s) (flatSessions (flatStages css))) (item_id st)\<rparr>"
  have grp: "filter (\<lambda>st. case_id (stage_props st) = item_id (case_props cs)) (flatStages css)
          = map (?tag cs) (stages cs)"
    using regroup [where pid = "\<lambda>cs. item_id (case_props cs)" and fk = "\<lambda>st. case_id (stage_props st)"
      and tag = ?tag and ch = stages, OF dc mem]
    by (simp add: flatStages_def)
  have dist: "distinct (map (\<lambda>st. item_id (stage_props st)) (flatStages css))"
    using ds by (simp add: flatStages_ids)
  have each: "?mk (stage_props (?tag cs st)) = tagStage (item_id (case_props cs)) st"
    if "st \<in> set (stages cs)" for st
  proof -
    from that mem have "?tag cs st \<in> set (flatStages css)"
      by (auto simp: flatStages_def)
    from sessions_of_stage [OF dist this] show ?thesis
      by (simp add: tagStage_def)
  qed
  have "getOrEmpty (groupInto case_id ?mk (map stage_props (flatStages css))) (item_id (case_props cs))
          = map ?mk (map stage_props (filter (\<lambda>st. case_id (stage_props st) = item_id (case_props cs)) (flatStages css)))"
    by (simp add: getOrEmpty_groupInto filter_map comp_def)
  also have "\<dots> = map (\<lambda>st. ?mk (stage_props (?tag cs st))) (stages cs)"
    by (simp add: grp comp_def)
  also have "\<dots> = map (tagStage (item_id (case_props cs))) (stages cs)"
    using each by (simp cong: map_cong)
  finally show ?thesis .
qed

lemma cases_of_client:
  assumes valid: "validGraph G" and mem: "c \<in> set (clients G)"
  shows "getOrEmpty (groupInto client_id
            (\<lambda>cs. \<lparr>case_props = cs,
               stages = getOrEmpty (groupInto case_id
                 (\<lambda>st. \<lparr>stage_props = st,
                    sessions = getOrEmpty (groupInto stage_id (\<lambda>s. s)
                      (flatSessions (flatStages (flatCases G)))) (item_id st)\<rparr>)
                 (map stage_props (flatStages (flatCases G)))) (item_id cs)\<rparr>)
            (map case_props (flatCases G))) (item_id (client_props c))
           = map (tagCase (item_id (client_props c))) (cases c)"
proof -
  let ?tag = "\<lambda>c cs. cs\<lparr>case_props := (case_props cs)\<lparr>client_id := item_id (client_props c)\<rparr>\<rparr>"
  let ?mk = "\<lambda>cs. \<lparr>case_props = cs,
               stages = getOrEmpty (groupInto case_id
                 (\<lambda>st. \<lparr>stage_props = st,
                    sessions = getOrEmpty (groupInto stage_id (\<lambda>s. s)
                      (flatSessions (flatStages (flatCases G)))) (item_id st)\<rparr>)
                 (map stage_props (flatStages (flatCases G)))) (item_id cs)\<rparr>"
  from valid have dcl: "distinct (map (\<lambda>c. item_id (client_props c)) (clients G))"
    and dc: "distinct (map (\<lambda>cs. item_id (case_props cs)) (flatCases G))"
    and ds: "distinct (map (\<lambda>st. item_id (stage_props st)) (concat (map stages (flatCases G))))"
    by (simp_all add: validGraph_def flatCases_ids flatCases_stages)
  have grp: "filter (\<lambda>cs. client_id (case_props cs) = item_id (client_props c)) (flatCases G)
          = map (?tag c) (cases c)"
    using regroup [where pid = "\<lambda>c. item_id (client_props c)" and fk = "\<lambda>cs. client_id (case_props cs)"
      and tag = ?tag and ch = cases, OF dcl mem]
    by (simp add: flatCases_def)
  have each: "?mk (case_props (?tag c cs)) = tagCase (item_id (client_props c)) cs"
    if "cs \<in> set (cases c)" for cs
  proof -
    from that mem have "?tag c cs \<in> set (flatCases G)"
      by (auto simp: flatCases_def)
    from stages_of_case [OF dc ds this] show ?thesis
      by (simp add: tagCase_def)
  qed
  have "getOrEmpty (groupInto client_id ?mk (map case_props (flatCases G))) (item_id (client_props c))
          = map ?mk (map case_props (filter (\<lambda>cs. client_id (case_props cs) = item_id (client_props c)) (flatCases G)))"
    by (simp add: getOrEmpty_groupInto filter_map comp_def)
  also have "\<dots> = map (\<lambda>cs. ?mk (case_props (?tag c cs))) (cases c)"
    by (simp add: grp comp_def)
  also have "\<dots> = map (tagCase (item_id (client_props c))) (cases c)"
    using each by (simp cong: map_cong)
  finally show ?thesis .
qed

lemma assistants_roundtrip: "map item_name (map (\<lambda>name. emptyItem\<lparr>item_name := name\<rparr>) xs) = xs"
  by (induction xs) simp_all

text \<open>What the reconstructor builds, with the lookups written as filters.\<close>

lemma constructData_nested:
  "constructData F =
     \<lparr>clients = map (\<lambda>c. \<lparr>client_props = c,
          cases = map (\<lambda>cs. \<lparr>case_props = cs,
            stages = map (\<lambda>st. \<lparr>stage_props = st,
              sessions = filter (\<lambda>s. stage_id s = item_id st) (f_sessions F)\<rparr>)
              (filter (\<lambda>st. case_id st = item_id cs) (f_stages F))\<rparr>)
            (filter (\<lambda>cs. client_id cs = item_id c) (f_cases F))\<rparr>) (f_clients F),
      adminTasks = f_admin_tasks F,
      appointments = f_appointments F,
      accountingEntries = f_accounting_entries F,
      invoices = map (\<lambda>i. \<lparr>invoice_props = i,
          items = filter (\<lambda>it. invoice_id it = item_id i) (f_invoice_items F)\<rparr>) (f_invoices F),
      assistants = map item_name (f_assistants F),
      documents = f_case_documents F,
      profiles = f_profiles F,
      siteFinances = f_site_finances F\<rparr>"
  by (simp add: constructData_def Let_def getOrEmpty_groupInto)

section \<open>Properties of the sync engine\<close>

lemmas sample_defs = emptyItem_def emptyFlat_def emptyData_def getInitialDeletedIds_def
  client1_def case1_def flatCase1_def flatCase1Newer_def invoice1_def freshGraph_def
  taggedGraph_def unrelatedTombstone_def clientTombstone_def clientTombstoneAt_def
  clientEditedAt_def syncedDoc_def
  uploadingDocAt_def localOnlyDoc_def docTombstone_def localWithDoc_def clientPending_def
  casePending_def orphanItem_def localWithOrphanItem_def localClientAndCase_def
  threeClients_def orphanCase_def remoteWithOrphanCase_def clientWithoutCases_def
  threeClientsOneCase_def threeClientsGraph_def

lemmas flatten_defs = flattenData_def flatCases_def flatStages_def flatSessions_def
  flatInvoiceItems_def

lemmas deletion_defs = applyDeletionsToLocal_def deletionMap_def deletionKey_def
  filterItems_def keyOf_def dateOf_def docAfterDeletion_def

lemmas merge_defs = mergeTable_def newMap_def localStep_def remoteStep_def mapHas_def
  isParentDeleted_def keyOf_def dateOf_def deletedIdsSets_def entityKey_def

subsection \<open>Invoices under the deletion log\<close>

text \<open>
  Claim C1. An invoice without a tombstone whose client survives the client
  filter should stay in the invoices table. The applier filters invoices by
  \<^verbatim>\<open>clientIds.has(i.client_id)\<close>, but an invoice names its client in
  \<^verbatim>\<open>clientId\<close> and \<^verbatim>\<open>flattenData\<close> adds no \<^verbatim>\<open>client_id\<close> to it. For the
  client \<^verbatim>\<open>c1\<close> with its invoice \<^verbatim>\<open>i1\<close> and one tombstone of an unrelated
  admin task, the client survives and the flat invoice is present before the
  pass, yet the pass returns no invoice.
\<close>

theorem invoice_dropped_though_client_survives:
  "f_clients (applyDeletionsToLocal (flattenData freshGraph) [unrelatedTombstone]) = [client1]
   \<and> f_invoices (flattenData freshGraph) = [invoice1]
   \<and> clientId invoice1 = Some (Str ''c1'')
   \<and> f_invoices (applyDeletionsToLocal (flattenData freshGraph) [unrelatedTombstone]) = []"
  by (simp add: sample_defs flatten_defs deletion_defs Let_def)

subsection \<open>Round trip\<close>

text \<open>
  Claim C2, as stated: \<^verbatim>\<open>constructData(flattenData(G))\<close> is deep-equal to \<open>G\<close>
  for every structurally valid graph. It fails for a client with one case
  that does not yet carry \<^verbatim>\<open>client_id\<close>: the rebuilt case has the property.
\<close>

theorem round_trip_adds_foreign_key:
  "validGraph freshGraph \<and> constructData (flattenData freshGraph) \<noteq> freshGraph"
  by (simp add: validGraph_def allCases_def allStages_def sample_defs flatten_defs
       constructData_def groupInto_def pushTo_def getOrEmpty_def Let_def)

text \<open>
  Claim C2, amended. For a structurally valid graph, the rebuilt graph is
  \<open>G\<close> with every case, stage, session and invoice item carrying its parent's
  identifier in \<^verbatim>\<open>client_id\<close>, \<^verbatim>\<open>case_id\<close>, \<^verbatim>\<open>stage_id\<close>,
  \<^verbatim>\<open>invoice_id\<close>; it equals \<open>G\<close> exactly when the children of \<open>G\<close> carry
  these properties already.
\<close>

theorem round_trip_tags_parents:
  assumes "validGraph G"
  shows "constructData (flattenData G) = tagParents G
     \<and> (constructData (flattenData G) = G \<longleftrightarrow> tagParents G = G)"
proof -
  have cl: "map (\<lambda>c. \<lparr>client_props = c, cases = getOrEmpty (groupInto client_id
            (\<lambda>cs. \<lparr>case_props = cs,
               stages = getOrEmpty (groupInto case_id
                 (\<lambda>st. \<lparr>stage_props = st,
                    sessions = getOrEmpty (groupInto stage_id (\<lambda>s. s)
                      (flatSessions (flatStages (flatCases G)))) (item_id st)\<rparr>)
                 (map stage_props (flatStages (flatCases G)))) (item_id cs)\<rparr>)
            (map case_props (flatCases G))) (item_id c)\<rparr>) (map client_props (clients G))
         = map tagClient (clients G)"
    using cases_of_client [OF assms] by (simp add: tagClient_def comp_def cong: map_cong)
  from assms have di: "distinct (map (\<lambda>i. item_id (invoice_props i)) (invoices G))"
    by (simp add: validGraph_def)
  have iv: "map (\<lambda>nv. \<lparr>invoice_props = nv,
               items = getOrEmpty (groupInto invoice_id (\<lambda>it. it) (flatInvoiceItems G)) (item_id nv)\<rparr>)
             (map invoice_props (invoices G))
         = map tagInvoice (invoices G)"
    using items_of_invoice [OF di] by (simp add: tagInvoice_def comp_def cong: map_cong)
  have "constructData (flattenData G) = tagParents G"
    by (rule AppData.equality)
      (simp_all add: constructData_def flattenData_def Let_def cl iv tagParents_def
         assistants_roundtrip del: map_map)
  then show ?thesis by simp
qed

theorem round_trip_tags_parents_witness:
  "validGraph taggedGraph \<and> tagParents taggedGraph = taggedGraph
   \<and> constructData (flattenData taggedGraph) = taggedGraph"
proof -
  have v: "validGraph taggedGraph"
    by (simp add: validGraph_def allCases_def allStages_def sample_defs)
  have t: "tagParents taggedGraph = taggedGraph"
    by (simp add: tagParents_def tagClient_def tagCase_def tagInvoice_def sample_defs)
  from round_trip_tags_parents [OF v] t v show ?thesis by simp
qed

subsection \<open>Tombstone precedence\<close>




subsection \<open>No resurrection\<close>

text \<open>
  Claim C4, as stated: a record whose key is in its table's pending-deletion
  set appears neither in the merged nor in the upserts output, also when it is
  present locally. The loop over the local records never consults the deletion
  set of the record itself: the client \<^verbatim>\<open>c1\<close>, pending deletion and still
  present locally, is both kept and queued.
\<close>

theorem pending_local_record_kept:
  "hasId (pendingFor K_clients clientPending) (keyOf client1)
   \<and> client1 \<in> set (snd (mergeTable K_clients clientPending [client1] []))
   \<and> client1 \<in> set (fst (mergeTable K_clients clientPending [client1] []))"
  by (simp add: merge_defs sample_defs Let_def)

text \<open>
  Claim C4, amended. For every table, a record whose key is in that table's
  pending-deletion set and which does not occur (by key) among the local
  records appears neither in the merged nor in the upserts output of the merge
  engine, whatever the remote pull contains.
\<close>

theorem no_resurrection_from_remote:
  assumes "hasId (pendingFor key d) (keyOf x)"
    and "keyOf x \<notin> keyOf ` set localItems"
  shows "x \<notin> set (snd (mergeTable key d localItems remoteItems))
     \<and> x \<notin> set (fst (mergeTable key d localItems remoteItems))"
proof -
  let ?rm = "newMap (map (\<lambda>i. (keyOf i, i)) remoteItems)"
  let ?lm = "newMap (map (\<lambda>i. (keyOf i, i)) localItems)"
  let ?st = "foldl (localStep key d ?rm) ([], []) localItems"
  let ?fm = "foldl (remoteStep key d ?lm) (fst ?st) remoteItems"
  let ?A = "keyOf ` set localItems"
  have "\<forall>e \<in> set (fst ?st). fst e \<in> ?A"
    by (rule local_keys) simp_all
  then have "\<forall>e \<in> set (fst ?st). fst e \<in> ?A \<or> \<not> hasId (pendingFor key d) (fst e)" by simp
  then have keys: "\<forall>e \<in> set ?fm. fst e \<in> ?A \<or> \<not> hasId (pendingFor key d) (fst e)"
    by (rule remote_keys)
  have wk: "wellKeyed ?fm"
    by (intro wellKeyed_remote wellKeyed_local) (simp add: wellKeyed_def)
  have "x \<notin> set (map snd ?fm)"
  proof
    assume "x \<in> set (map snd ?fm)"
    then obtain e where e: "e \<in> set ?fm" "snd e = x" by auto
    from wk e(1) have "keyOf (snd e) = fst e" unfolding wellKeyed_def by blast
    with e(2) have k: "fst e = keyOf x" by simp
    from keys e(1) have "fst e \<in> ?A \<or> \<not> hasId (pendingFor key d) (fst e)" by blast
    with k assms show False by simp
  qed
  moreover have "x \<notin> set (fst (mergeTable key d localItems remoteItems))"
  proof
    assume "x \<in> set (fst (mergeTable key d localItems remoteItems))"
    then have "x \<in> set localItems" by (simp add: mergeTable_upserts)
    then have "keyOf x \<in> keyOf ` set localItems" by (rule imageI)
    with assms(2) show False by simp
  qed
  ultimately show ?thesis by (simp add: mergeTable_def Let_def)
qed

theorem no_resurrection_from_remote_witness:
  "hasId (pendingFor K_clients clientPending) (keyOf client1)
   \<and> keyOf client1 \<notin> keyOf ` set []
   \<and> client1 \<notin> set (snd (mergeTable K_clients clientPending [] [client1]))
   \<and> client1 \<notin> set (fst (mergeTable K_clients clientPending [] [client1]))"
proof -
  have h: "hasId (pendingFor K_clients clientPending) (keyOf client1)"
    by (simp add: sample_defs keyOf_def)
  have n: "keyOf client1 \<notin> keyOf ` set []" by simp
  from no_resurrection_from_remote [OF h n, of "[client1]"] h show ?thesis by simp
qed

subsection \<open>Orphan safety net\<close>




subsection \<open>Last write wins\<close>

text \<open>
  Claim C6, as stated: when a local and a remote record share an identifier,
  the merged output keeps the local one if and only if it is strictly newer
  and the remote one otherwise, and the local one is queued exactly when it is
  strictly newer. The loop skips a local record whose parent is pending
  deletion before it compares anything, and the remote loop passes over every
  key that occurs locally: with the client \<^verbatim>\<open>c1\<close> pending deletion, the
  strictly newer local case \<^verbatim>\<open>k1\<close> is neither kept nor queued, and the remote
  case is not kept either. And when two local records share the key, the later
  one decides: the local client edited at 9 is strictly newer than the remote
  one edited at 5, yet the remote one is kept, because a second local record
  of the same key, edited at 1, follows.
\<close>

theorem parent_pending_skips_comparison:
  "keyOf flatCase1Newer = keyOf flatCase1
   \<and> dateOf flatCase1Newer > dateOf flatCase1
   \<and> flatCase1Newer \<notin> set (snd (mergeTable K_cases clientPending [flatCase1Newer] [flatCase1]))
   \<and> flatCase1 \<notin> set (snd (mergeTable K_cases clientPending [flatCase1Newer] [flatCase1]))
   \<and> flatCase1Newer \<notin> set (fst (mergeTable K_cases clientPending [flatCase1Newer] [flatCase1]))
   \<and> dateOf (clientEditedAt 9) > dateOf (clientEditedAt 5)
   \<and> snd (mergeTable K_clients getInitialDeletedIds
          [clientEditedAt 9, clientEditedAt 1] [clientEditedAt 5]) = [clientEditedAt 5]"
  by (simp add: merge_defs sample_defs Let_def)

text \<open>
  Claim C6, amended. Let the keys be unique within the local and within the
  remote records of a table, and let the local record \<open>a\<close> and the remote
  record \<open>b\<close> share a key, the parent of \<open>a\<close> not being pending deletion. Then
  the only merged record with that key is \<open>a\<close> if \<open>a\<close> is strictly newer than
  \<open>b\<close> (a missing \<^verbatim>\<open>updated_at\<close> counting as 0) and \<open>b\<close> otherwise, so the
  remote record wins ties; and \<open>a\<close> is queued for upsert exactly when it is
  strictly newer.
\<close>

theorem last_write_wins:
  assumes "a \<in> set localItems" and "b \<in> set remoteItems" and "keyOf a = keyOf b"
    and "distinct (map keyOf localItems)" and "distinct (map keyOf remoteItems)"
    and "\<not> isParentDeleted key d a"
  shows "filter (\<lambda>x. keyOf x = keyOf a) (snd (mergeTable key d localItems remoteItems))
           = [if dateOf a > dateOf b then a else b]
     \<and> (a \<in> set (fst (mergeTable key d localItems remoteItems)) \<longleftrightarrow> dateOf a > dateOf b)"
proof -
  let ?rm = "newMap (map (\<lambda>i. (keyOf i, i)) remoteItems)"
  have "distinct (map fst (map (\<lambda>i. (keyOf i, i)) remoteItems))"
    using assms(5) by (simp add: comp_def)
  moreover have "(keyOf a, b) \<in> set (map (\<lambda>i. (keyOf i, i)) remoteItems)"
    using assms(2,3) by auto
  ultimately have rm: "map_of ?rm (keyOf a) = Some b" by (rule newMap_distinct)
  then have "kept key d ?rm a = (if dateOf a > dateOf b then a else b)"
    by (simp add: kept_def)
  moreover have "queued key d ?rm a \<longleftrightarrow> dateOf a > dateOf b"
    using rm assms(6) by (simp add: queued_def)
  ultimately show ?thesis
    using mergeTable_entry [OF assms(1,4,6), of remoteItems] assms(1)
    by (simp add: mergeTable_upserts)
qed

theorem last_write_wins_witness:
  "flatCase1Newer \<in> set [flatCase1Newer] \<and> flatCase1 \<in> set [flatCase1]
   \<and> keyOf flatCase1Newer = keyOf flatCase1
   \<and> \<not> isParentDeleted K_cases getInitialDeletedIds flatCase1Newer
   \<and> filter (\<lambda>x. keyOf x = keyOf flatCase1Newer)
        (snd (mergeTable K_cases getInitialDeletedIds [flatCase1Newer] [flatCase1]))
       = [flatCase1Newer]
   \<and> flatCase1Newer \<in> set (fst (mergeTable K_cases getInitialDeletedIds [flatCase1Newer] [flatCase1]))"
proof -
  have k: "keyOf flatCase1Newer = keyOf flatCase1" by (simp add: sample_defs keyOf_def)
  have p: "\<not> isParentDeleted K_cases getInitialDeletedIds flatCase1Newer"
    by (simp add: isParentDeleted_def sample_defs)
  have n: "dateOf flatCase1Newer > dateOf flatCase1" by (simp add: sample_defs dateOf_def)
  from last_write_wins [of flatCase1Newer "[flatCase1Newer]" flatCase1 "[flatCase1]"
      K_cases getInitialDeletedIds] k p n
  show ?thesis by simp
qed

subsection \<open>Documents that vanished remotely\<close>

text \<open>
  Claim C7, as stated: a local document in state \<^verbatim>\<open>synced\<close>, absent from the
  remote set and not pending deletion, is kept in the merged output with
  \<^verbatim>\<open>isLocalOnly\<close> set and is not queued. When its case is pending deletion the
  loop skips the document first, and nothing is kept for it. And when a second
  local document of the same key follows, that one is kept and queued in its
  place.
\<close>

theorem vanished_document_with_pending_case:
  "localState syncedDoc = Some Synced
   \<and> \<not> hasId (d_documents casePending) (keyOf syncedDoc)
   \<and> snd (mergeTable K_case_documents casePending [syncedDoc] []) = []
   \<and> \<not> hasId (d_documents getInitialDeletedIds) (keyOf syncedDoc)
   \<and> mergeTable K_case_documents getInitialDeletedIds [syncedDoc, uploadingDocAt 7] []
       = ([uploadingDocAt 7], [uploadingDocAt 7])"
  by (simp add: merge_defs sample_defs Let_def)

text \<open>
  Claim C7, amended. Let the keys of the local documents be unique. A local
  document in state \<^verbatim>\<open>synced\<close> whose key occurs in no remote document and is
  not in the pending document deletions, and whose case is not pending
  deletion, is kept by the merge engine as the only merged document with its
  key, with \<^verbatim>\<open>isLocalOnly\<close> set to true; it is not in the upserts output.
\<close>

theorem vanished_document_local_only:
  assumes "doc \<in> set localDocs" and "localState doc = Some Synced"
    and "keyOf doc \<notin> keyOf ` set remoteDocs"
    and "\<not> hasId (d_documents d) (keyOf doc)"
    and "\<not> hasId (d_cases d) (caseId doc)"
    and "distinct (map keyOf localDocs)"
  shows "filter (\<lambda>x. keyOf x = keyOf doc)
            (snd (mergeTable K_case_documents d localDocs remoteDocs))
           = [doc\<lparr>isLocalOnly := Some True\<rparr>]
     \<and> doc \<notin> set (fst (mergeTable K_case_documents d localDocs remoteDocs))"
proof -
  let ?rm = "newMap (map (\<lambda>i. (keyOf i, i)) remoteDocs)"
  have "\<not> mapHas ?rm (keyOf doc)"
    using assms(3) by (simp add: mapHas_newMap image_comp comp_def)
  then have rm: "map_of ?rm (keyOf doc) = None" by (simp add: mapHas_def)
  have np: "\<not> isParentDeleted K_case_documents d doc"
    using assms(5) by (simp add: isParentDeleted_def)
  have "kept K_case_documents d ?rm doc = doc\<lparr>isLocalOnly := Some True\<rparr>"
    using rm assms(2,4) by (simp add: kept_def)
  moreover have "\<not> queued K_case_documents d ?rm doc"
    using rm assms(2,4) by (simp add: queued_def)
  ultimately show ?thesis
    using mergeTable_entry [OF assms(1,6) np, of remoteDocs]
    by (simp add: mergeTable_upserts)
qed

theorem vanished_document_local_only_witness:
  "localState syncedDoc = Some Synced
   \<and> \<not> hasId (d_documents getInitialDeletedIds) (keyOf syncedDoc)
   \<and> \<not> hasId (d_cases getInitialDeletedIds) (caseId syncedDoc)
   \<and> filter (\<lambda>x. keyOf x = keyOf syncedDoc)
        (snd (mergeTable K_case_documents getInitialDeletedIds [syncedDoc] []))
       = [localOnlyDoc]
   \<and> syncedDoc \<notin> set (fst (mergeTable K_case_documents getInitialDeletedIds [syncedDoc] []))"
proof -
  have s: "localState syncedDoc = Some Synced" by (simp add: sample_defs)
  have d: "\<not> hasId (d_documents getInitialDeletedIds) (keyOf syncedDoc)"
    by (simp add: sample_defs keyOf_def)
  have c: "\<not> hasId (d_cases getInitialDeletedIds) (caseId syncedDoc)"
    by (simp add: sample_defs)
  from vanished_document_local_only [of syncedDoc "[syncedDoc]" "[]" getInitialDeletedIds] s d c
  show ?thesis by (simp add: localOnlyDoc_def)
qed

subsection \<open>Fast path\<close>

text \<open>
  Claim C8, as stated: when the local snapshot, after the remote deletions are
  applied, is effectively empty, the remote snapshot is not empty and no local
  deletion is pending, the sync adopts the remote snapshot wholesale. The
  reconstructor attaches a child only to a parent row that names it: a remote
  case whose client row is missing is in the remote snapshot and not in the
  graph handed to the caller.
\<close>

theorem fast_path_drops_orphan_case:
  "isLocalEffectivelyEmpty (applyDeletionsToLocal (flattenData emptyData) [])
   \<and> \<not> isRemoteEffectivelyEmpty remoteWithOrphanCase
   \<and> \<not> hasPendingDeletions getInitialDeletedIds
   \<and> orphanCase \<in> set (f_cases (transformRemoteToLocal remoteWithOrphanCase))
   \<and> manualSync emptyData getInitialDeletedIds remoteWithOrphanCase [] = AdoptRemote clientWithoutCases
   \<and> f_cases (flattenData clientWithoutCases) = []"
  by (simp add: manualSync_def isLocalEffectivelyEmpty_def isRemoteEffectivelyEmpty_def
       hasPendingDeletions_def deletedIdsValues_def flatDataValues_def applyDeletionsToLocal_def
       flatten_defs transformRemoteToLocal_def constructData_nested sample_defs Let_def)

text \<open>
  Claim C8, amended. Under the same three conditions the sync hands to the
  caller the graph rebuilt from the remote snapshot and makes no upsert, no
  row deletion and no storage removal. The graph holds, in the remote order,
  every remote client, invoice, admin task, appointment, accounting entry,
  assistant name, document, profile and site finance entry (with
  \<^verbatim>\<open>client_id\<close> and \<^verbatim>\<open>case_id\<close> renamed to \<^verbatim>\<open>clientId\<close> and \<^verbatim>\<open>caseId\<close>
  where the local format has them so); under each client exactly the remote
  cases that name it, under each of these cases exactly the remote stages that
  name it, under each of these stages exactly the remote sessions that name
  it, and under each invoice exactly the remote items that name it. A remote
  child whose parent row is absent is not adopted.
\<close>

theorem fast_path_adopts_remote:
  assumes "isLocalEffectivelyEmpty (applyDeletionsToLocal (flattenData localData) remoteDeletions)"
    and "\<not> isRemoteEffectivelyEmpty remoteDataRaw"
    and "\<not> hasPendingDeletions deletedIds"
  shows "(\<exists>G. manualSync localData deletedIds remoteDataRaw remoteDeletions = AdoptRemote G
       \<and> map client_props (clients G) = f_clients remoteDataRaw
       \<and> (\<forall>c \<in> set (clients G). map case_props (cases c)
             = filter (\<lambda>cs. client_id cs = item_id (client_props c)) (f_cases remoteDataRaw))
       \<and> (\<forall>c \<in> set (clients G). \<forall>cs \<in> set (cases c). map stage_props (stages cs)
             = filter (\<lambda>st. case_id st = item_id (case_props cs)) (f_stages remoteDataRaw))
       \<and> (\<forall>c \<in> set (clients G). \<forall>cs \<in> set (cases c). \<forall>st \<in> set (stages cs). sessions st
             = filter (\<lambda>s. stage_id s = item_id (stage_props st)) (f_sessions remoteDataRaw))
       \<and> map invoice_props (invoices G) = map camelKeys (f_invoices remoteDataRaw)
       \<and> (\<forall>i \<in> set (invoices G). items i
             = filter (\<lambda>it. invoice_id it = item_id (invoice_props i)) (f_invoice_items remoteDataRaw))
       \<and> adminTasks G = f_admin_tasks remoteDataRaw
       \<and> appointments G = f_appointments remoteDataRaw
       \<and> accountingEntries G = map camelKeys (f_accounting_entries remoteDataRaw)
       \<and> assistants G = map item_name (f_assistants remoteDataRaw)
       \<and> documents G = map camelCaseKey (f_case_documents remoteDataRaw)
       \<and> profiles G = f_profiles remoteDataRaw
       \<and> siteFinances G = f_site_finances remoteDataRaw)
     \<and> upsertCall (manualSync localData deletedIds remoteDataRaw remoteDeletions) = None
     \<and> deleteCall (manualSync localData deletedIds remoteDataRaw remoteDeletions) = None
     \<and> storageRemoveCall (manualSync localData deletedIds remoteDataRaw remoteDeletions) = None"
proof -
  let ?R = "transformRemoteToLocal remoteDataRaw"
  let ?G = "constructData ?R"
  have m: "manualSync localData deletedIds remoteDataRaw remoteDeletions = AdoptRemote ?G"
    using assms by (simp add: manualSync_def Let_def)
  have cl: "map client_props (clients ?G) = f_clients remoteDataRaw"
    by (simp add: constructData_nested transformRemoteToLocal_def comp_def)
  have cs: "\<forall>c \<in> set (clients ?G). map case_props (cases c)
             = filter (\<lambda>cs. client_id cs = item_id (client_props c)) (f_cases remoteDataRaw)"
    by (simp add: constructData_nested transformRemoteToLocal_def comp_def)
  have st: "\<forall>c \<in> set (clients ?G). \<forall>cs \<in> set (cases c). map stage_props (stages cs)
             = filter (\<lambda>st. case_id st = item_id (case_props cs)) (f_stages remoteDataRaw)"
    by (simp add: constructData_nested transformRemoteToLocal_def comp_def)
  have se: "\<forall>c \<in> set (clients ?G). \<forall>cs \<in> set (cases c). \<forall>st \<in> set (stages cs). sessions st
             = filter (\<lambda>s. stage_id s = item_id (stage_props st)) (f_sessions remoteDataRaw)"
    by (simp add: constructData_nested transformRemoteToLocal_def comp_def)
  have iv: "map invoice_props (invoices ?G) = map camelKeys (f_invoices remoteDataRaw)"
    by (simp add: constructData_nested transformRemoteToLocal_def comp_def)
  have it: "\<forall>i \<in> set (invoices ?G). items i
             = filter (\<lambda>it. invoice_id it = item_id (invoice_props i)) (f_invoice_items remoteDataRaw)"
    by (simp add: constructData_nested transformRemoteToLocal_def comp_def)
  have top: "adminTasks ?G = f_admin_tasks remoteDataRaw
       \<and> appointments ?G = f_appointments remoteDataRaw
       \<and> accountingEntries ?G = map camelKeys (f_accounting_entries remoteDataRaw)
       \<and> assistants ?G = map item_name (f_assistants remoteDataRaw)
       \<and> documents ?G = map camelCaseKey (f_case_documents remoteDataRaw)
       \<and> profiles ?G = f_profiles remoteDataRaw
       \<and> siteFinances ?G = f_site_finances remoteDataRaw"
    by (simp add: constructData_nested transformRemoteToLocal_def comp_def)
  from m cl cs st se iv it top show ?thesis by (simp only: upsertCall.simps deleteCall.simps storageRemoveCall.simps) blast
qed

theorem fast_path_adopts_remote_witness:
  "isLocalEffectivelyEmpty (applyDeletionsToLocal (flattenData emptyData) [])
   \<and> \<not> isRemoteEffectivelyEmpty threeClientsOneCase
   \<and> \<not> hasPendingDeletions getInitialDeletedIds
   \<and> manualSync emptyData getInitialDeletedIds threeClientsOneCase [] = AdoptRemote threeClientsGraph
   \<and> map client_props (clients threeClientsGraph) = f_clients threeClientsOneCase
   \<and> upsertCall (manualSync emptyData getInitialDeletedIds threeClientsOneCase []) = None
   \<and> deleteCall (manualSync emptyData getInitialDeletedIds threeClientsOneCase []) = None"
proof -
  have l: "isLocalEffectivelyEmpty (applyDeletionsToLocal (flattenData emptyData) [])"
    by (simp add: isLocalEffectivelyEmpty_def applyDeletionsToLocal_def flatten_defs sample_defs)
  have r: "\<not> isRemoteEffectivelyEmpty threeClientsOneCase"
    by (simp add: isRemoteEffectivelyEmpty_def flatDataValues_def sample_defs)
  have p: "\<not> hasPendingDeletions getInitialDeletedIds"
    by (simp add: hasPendingDeletions_def deletedIdsValues_def sample_defs)
  have g: "constructData (transformRemoteToLocal threeClientsOneCase) = threeClientsGraph"
    by (simp add: transformRemoteToLocal_def constructData_nested sample_defs)
  from fast_path_adopts_remote [OF l r p] obtain G where
    G: "manualSync emptyData getInitialDeletedIds threeClientsOneCase [] = AdoptRemote G"
    and c: "map client_props (clients G) = f_clients threeClientsOneCase"
    and u: "upsertCall (manualSync emptyData getInitialDeletedIds threeClientsOneCase []) = None"
    and d: "deleteCall (manualSync emptyData getInitialDeletedIds threeClientsOneCase []) = None"
    by blast
  have "manualSync emptyData getInitialDeletedIds threeClientsOneCase [] = AdoptRemote threeClientsGraph"
    using l r p g by (simp add: manualSync_def Let_def)
  with G have "G = threeClientsGraph" by simp
  with G c u d l r p show ?thesis by simp
qed

subsection \<open>Local-only documents and the push\<close>

text \<open>
  Claim C9. A document with \<^verbatim>\<open>isLocalOnly\<close> set to true is not among the
  documents prepared for the remote upsert; the rows handed to the remote
  upsert of \<^verbatim>\<open>case_documents\<close>, when a request is made at all, are exactly
  the rows of the documents that are not local-only.
\<close>

theorem local_only_documents_not_pushed:
  assumes "isLocalOnly doc = Some True"
  shows "doc \<notin> set (documentsToUpsert data)
    \<and> (\<forall>rows. caseDocumentsUpsert data = Some rows \<longrightarrow>
          set rows = documentRow ` {d \<in> set (f_case_documents data). isLocalOnly d \<noteq> Some True})"
  using assms
  by (auto simp: documentsToUpsert_def caseDocumentsUpsert_def upsertTable_def split: if_splits)

theorem local_only_documents_not_pushed_witness:
  "isLocalOnly localOnlyDoc = Some True
   \<and> localOnlyDoc \<notin> set (documentsToUpsert (localWithDoc localOnlyDoc))
   \<and> caseDocumentsUpsert (localWithDoc localOnlyDoc) = None"
proof -
  have h: "isLocalOnly localOnlyDoc = Some True" by (simp add: sample_defs)
  have n: "caseDocumentsUpsert (localWithDoc localOnlyDoc) = None"
    by (simp add: caseDocumentsUpsert_def upsertTable_def documentsToUpsert_def sample_defs)
  from local_only_documents_not_pushed [OF h, of "localWithDoc localOnlyDoc"] h n
  show ?thesis by simp
qed

subsection \<open>Tombstoned documents\<close>

text \<open>
  Claim C10, as stated: a tombstoned document whose \<^verbatim>\<open>updated_at\<close> does not
  postdate the tombstone plus 2000 ms is dropped unless its state is
  \<^verbatim>\<open>synced\<close> or it is local-only. The test is
  \<^verbatim>\<open>updatedAt < deletedAt + 2000\<close>: a document in state \<^verbatim>\<open>pending_upload\<close>
  edited exactly 2000 ms after its tombstone, which does not postdate that
  instant, is returned unchanged.
\<close>

theorem tombstoned_document_at_boundary:
  "deletionMap [docTombstone] (deletionKey ''case_documents'' (templ (item_id (uploadingDocAt 3000))))
      = Some 1000
   \<and> \<not> dateOf (uploadingDocAt 3000) > 1000 + 2000
   \<and> localState (uploadingDocAt 3000) \<noteq> Some Synced
   \<and> isLocalOnly (uploadingDocAt 3000) \<noteq> Some True
   \<and> f_case_documents (applyDeletionsToLocal (localWithDoc (uploadingDocAt 3000)) [docTombstone])
       = [uploadingDocAt 3000]"
proof -
  let ?L = "localWithDoc (uploadingDocAt 3000)"
  have t: "deletionMap [docTombstone]
      (deletionKey ''case_documents'' (templ (item_id (uploadingDocAt 3000)))) = Some 1000"
    by (simp add: sample_defs deletion_defs)
  have c: "f_cases (applyDeletionsToLocal ?L [docTombstone]) = [flatCase1]"
    by (simp add: sample_defs deletion_defs Let_def)
  have m: "List.map_filter (docAfterDeletion (deletionMap [docTombstone])) (f_case_documents ?L)
      = [uploadingDocAt 3000]"
    by (simp add: sample_defs deletion_defs)
  have "f_case_documents (applyDeletionsToLocal ?L [docTombstone])
      = filter (\<lambda>d. caseId d \<in> set (map item_id [flatCase1])) [uploadingDocAt 3000]"
    by (simp add: docs_after c m)
  then have "f_case_documents (applyDeletionsToLocal ?L [docTombstone]) = [uploadingDocAt 3000]"
    by (simp add: sample_defs)
  with t show ?thesis by (simp add: sample_defs dateOf_def)
qed

text \<open>
  Claim C10, amended. Let the lookup built from the deletion log hold the
  deletion time \<open>t_del\<close> for a local document whose \<^verbatim>\<open>updated_at\<close> is earlier
  than \<open>t_del + 2000\<close>. If its state is \<^verbatim>\<open>synced\<close> or it is local-only
  already, it is kept with \<^verbatim>\<open>isLocalOnly\<close> set to true, exactly when its case
  survives the pass; in every other state the document is not in the output,
  and when the identifiers of the local documents are unique no output
  document bears its identifier.
\<close>

theorem tombstoned_document_residency:
  assumes tomb: "deletionMap deletions (deletionKey ''case_documents'' (templ (item_id doc))) = Some t_del"
    and old: "dateOf doc < t_del + 2000"
    and mem: "doc \<in> set (f_case_documents L)"
  shows "(localState doc = Some Synced \<or> isLocalOnly doc = Some True \<longrightarrow>
            (doc\<lparr>isLocalOnly := Some True\<rparr> \<in> set (f_case_documents (applyDeletionsToLocal L deletions))
              \<longleftrightarrow> caseId doc \<in> set (map item_id (f_cases (applyDeletionsToLocal L deletions)))))
       \<and> (localState doc \<noteq> Some Synced \<and> isLocalOnly doc \<noteq> Some True \<longrightarrow>
            doc \<notin> set (f_case_documents (applyDeletionsToLocal L deletions))
            \<and> (distinct (map item_id (f_case_documents L)) \<longrightarrow>
                 item_id doc \<notin> set (map item_id (f_case_documents (applyDeletionsToLocal L deletions)))))"
proof -
  have ne: "deletions \<noteq> []" using tomb by (auto simp: deletionMap_Nil)
  let ?dm = "deletionMap deletions"
  let ?out = "f_case_documents (applyDeletionsToLocal L deletions)"
  let ?ids = "set (map item_id (f_cases (applyDeletionsToLocal L deletions)))"
  have out: "set ?out = {y. caseId y \<in> ?ids \<and> (\<exists>x \<in> set (f_case_documents L). docAfterDeletion ?dm x = Some y)}"
    using docs_after [OF ne, of L] by (auto simp: set_map_filter)
  have keep: "docAfterDeletion ?dm doc = Some (doc\<lparr>isLocalOnly := Some True\<rparr>)"
    if "localState doc = Some Synced \<or> isLocalOnly doc = Some True"
    using that tomb old by (auto simp: docAfterDeletion_def)
  have drop: "docAfterDeletion ?dm doc = None"
    if "localState doc \<noteq> Some Synced \<and> isLocalOnly doc \<noteq> Some True"
    using that tomb old by (auto simp: docAfterDeletion_def)
  have A: "doc\<lparr>isLocalOnly := Some True\<rparr> \<in> set ?out \<longleftrightarrow> caseId doc \<in> ?ids"
    if k: "localState doc = Some Synced \<or> isLocalOnly doc = Some True"
  proof
    assume "doc\<lparr>isLocalOnly := Some True\<rparr> \<in> set ?out"
    then show "caseId doc \<in> ?ids" unfolding out by simp
  next
    assume "caseId doc \<in> ?ids"
    then show "doc\<lparr>isLocalOnly := Some True\<rparr> \<in> set ?out"
      unfolding out using keep [OF k] mem by auto
  qed
  have B: "doc \<notin> set ?out" if d: "localState doc \<noteq> Some Synced \<and> isLocalOnly doc \<noteq> Some True"
  proof
    assume "doc \<in> set ?out"
    then obtain x where x: "x \<in> set (f_case_documents L)" "docAfterDeletion ?dm x = Some doc"
      unfolding out by auto
    from docAfterDeletion_cases [OF x(2)] d have "doc = x" by auto
    with x(2) drop [OF d] show False by simp
  qed
  have C: "item_id doc \<notin> set (map item_id ?out)"
    if d: "localState doc \<noteq> Some Synced \<and> isLocalOnly doc \<noteq> Some True"
      and dist: "distinct (map item_id (f_case_documents L))"
  proof
    assume "item_id doc \<in> set (map item_id ?out)"
    then obtain y where y: "y \<in> set ?out" "item_id y = item_id doc" by auto
    then obtain x where x: "x \<in> set (f_case_documents L)" "docAfterDeletion ?dm x = Some y"
      unfolding out by auto
    then have "item_id x = item_id doc" using docAfterDeletion_id y(2) by metis
    with dist x(1) mem have "x = doc" by (meson distinct_map inj_onD)
    with x(2) drop [OF d] show False by simp
  qed
  show ?thesis using A B C by blast
qed

theorem tombstoned_document_residency_witness:
  "deletionMap [docTombstone] (deletionKey ''case_documents'' (templ (item_id syncedDoc))) = Some 1000
   \<and> dateOf syncedDoc < 1000 + 2000
   \<and> localState syncedDoc = Some Synced
   \<and> caseId syncedDoc \<in> set (map item_id (f_cases (applyDeletionsToLocal (localWithDoc syncedDoc) [docTombstone])))
   \<and> localOnlyDoc \<in> set (f_case_documents (applyDeletionsToLocal (localWithDoc syncedDoc) [docTombstone]))"
proof -
  have t: "deletionMap [docTombstone] (deletionKey ''case_documents'' (templ (item_id syncedDoc))) = Some 1000"
    by (simp add: sample_defs deletion_defs)
  have o: "dateOf syncedDoc < 1000 + 2000" by (simp add: sample_defs dateOf_def)
  have m: "syncedDoc \<in> set (f_case_documents (localWithDoc syncedDoc))" by (simp add: localWithDoc_def)
  have s: "localState syncedDoc = Some Synced" by (simp add: sample_defs)
  have "f_cases (applyDeletionsToLocal (localWithDoc syncedDoc) [docTombstone]) = [flatCase1]"
    by (simp add: sample_defs deletion_defs Let_def)
  then have c: "caseId syncedDoc \<in> set (map item_id (f_cases (applyDeletionsToLocal (localWithDoc syncedDoc) [docTombstone])))"
    by (simp add: sample_defs)
  from tombstoned_document_residency [OF t o m] t o s c show ?thesis
    by (simp add: localOnlyDoc_def)
qed

end
